theory Spec2Isabelle
  imports Main "HOL-Library.Word"
begin

unbundle bit_operations_syntax

section \<open>Values, bytes and the identity hasher\<close>

text \<open>
  The program is \<^verbatim>\<open>media_collection.py\<close>. Its cells, URLs and hashes are Python values:
  a pandas cell of a text column is a string or NaN, and \<^verbatim>\<open>Tag.get\<close> of bs4 returns a
  string or None. \<^verbatim>\<open>py_str\<close> is what an f-string or \<^verbatim>\<open>str()\<close> makes of such a value.
\<close>

type_synonym byte = "8 word"

type_synonym bytes = "byte list"

datatype pyval = PyNone | NaN | Str string

fun py_str :: "pyval \<Rightarrow> string" where
  "py_str PyNone = ''None''"
| "py_str NaN = ''nan''"
| "py_str (Str s) = s"

text \<open>\<^verbatim>\<open>pd.notna\<close>: NaN and None are the missing values.\<close>

fun notna :: "pyval \<Rightarrow> bool" where
  "notna PyNone = False"
| "notna NaN = False"
| "notna (Str s) = True"

text \<open>
  \<^verbatim>\<open>chunks n xs\<close> cuts a list into pieces of \<open>n\<close> elements, the last one shorter when the
  length is no multiple of \<open>n\<close>. It is the block structure of MD5, and the way a
  server cuts a body that it sends in pieces of \<open>n\<close> bytes.
\<close>

fun chunks :: "nat \<Rightarrow> 'a list \<Rightarrow> 'a list list" where
  "chunks n xs = (if n = 0 \<or> xs = [] then [] else take n xs # chunks n (drop n xs))"

declare chunks.simps [simp del]

subsection \<open>MD5 (RFC 1321), as \<^verbatim>\<open>hashlib.md5\<close> computes it\<close>

definition md5_K :: "32 word list" where
  "md5_K = [
    0xd76aa478, 0xe8c7b756, 0x242070db, 0xc1bdceee, 0xf57c0faf, 0x4787c62a, 0xa8304613, 0xfd469501,
    0x698098d8, 0x8b44f7af, 0xffff5bb1, 0x895cd7be, 0x6b901122, 0xfd987193, 0xa679438e, 0x49b40821,
    0xf61e2562, 0xc040b340, 0x265e5a51, 0xe9b6c7aa, 0xd62f105d, 0x02441453, 0xd8a1e681, 0xe7d3fbc8,
    0x21e1cde6, 0xc33707d6, 0xf4d50d87, 0x455a14ed, 0xa9e3e905, 0xfcefa3f8, 0x676f02d9, 0x8d2a4c8a,
    0xfffa3942, 0x8771f681, 0x6d9d6122, 0xfde5380c, 0xa4beea44, 0x4bdecfa9, 0xf6bb4b60, 0xbebfbc70,
    0x289b7ec6, 0xeaa127fa, 0xd4ef3085, 0x04881d05, 0xd9d4d039, 0xe6db99e5, 0x1fa27cf8, 0xc4ac5665,
    0xf4292244, 0x432aff97, 0xab9423a7, 0xfc93a039, 0x655b59c3, 0x8f0ccc92, 0xffeff47d, 0x85845dd1,
    0x6fa87e4f, 0xfe2ce6e0, 0xa3014314, 0x4e0811a1, 0xf7537e82, 0xbd3af235, 0x2ad7d2bb, 0xeb86d391]"

definition md5_S :: "nat list" where
  "md5_S = [7, 12, 17, 22, 7, 12, 17, 22, 7, 12, 17, 22, 7, 12, 17, 22,
            5, 9, 14, 20, 5, 9, 14, 20, 5, 9, 14, 20, 5, 9, 14, 20,
            4, 11, 16, 23, 4, 11, 16, 23, 4, 11, 16, 23, 4, 11, 16, 23,
            6, 10, 15, 21, 6, 10, 15, 21, 6, 10, 15, 21, 6, 10, 15, 21]"

text \<open>The \<open>k\<close> low bytes of a word, least significant first.\<close>

definition le_bytes :: "nat \<Rightarrow> 'a::len word \<Rightarrow> bytes" where
  "le_bytes k w = map (\<lambda>i. ucast (drop_bit (8 * i) w)) [0..<k]"

definition le_word :: "bytes \<Rightarrow> 32 word" where
  "le_word bs = foldr (\<lambda>b w. ucast b OR push_bit 8 w) bs 0"

text \<open>Padding: the bit 1, zeros up to 56 modulo 64, the length in bits as 64 bits.\<close>

definition md5_pad :: "bytes \<Rightarrow> bytes" where
  "md5_pad msg = msg @ [0x80] @ replicate ((119 - length msg mod 64) mod 64) 0
                  @ le_bytes 8 (of_nat (8 * length msg) :: 64 word)"

type_synonym md5_state = "32 word \<times> 32 word \<times> 32 word \<times> 32 word"

definition md5_step :: "32 word list \<Rightarrow> md5_state \<Rightarrow> nat \<Rightarrow> md5_state" where
  "md5_step M st i = (case st of (A, B, C, D) \<Rightarrow>
     let (F, g) =
       (if i < 16 then ((B AND C) OR (NOT B AND D), i)
        else if i < 32 then ((D AND B) OR (NOT D AND C), (5 * i + 1) mod 16)
        else if i < 48 then (B XOR C XOR D, (3 * i + 5) mod 16)
        else (C XOR (B OR NOT D), (7 * i) mod 16));
       F' = F + A + md5_K ! i + M ! g
     in (D, B + word_rotl (md5_S ! i) F', B, C))"

definition md5_block :: "md5_state \<Rightarrow> bytes \<Rightarrow> md5_state" where
  "md5_block st blk = (case st of (a0, b0, c0, d0) \<Rightarrow>
     case foldl (md5_step (map le_word (chunks 4 blk))) st [0..<64] of
       (A, B, C, D) \<Rightarrow> (a0 + A, b0 + B, c0 + C, d0 + D))"

definition md5_digest :: "bytes \<Rightarrow> bytes" where
  "md5_digest msg =
     (case foldl md5_block (0x67452301, 0xefcdab89, 0x98badcfe, 0x10325476)
             (chunks 64 (md5_pad msg)) of
        (a, b, c, d) \<Rightarrow> concat (map (le_bytes 4) [a, b, c, d]))"

definition hex_digit :: "nat \<Rightarrow> char" where
  "hex_digit n = ''0123456789abcdef'' ! n"

definition hexdigest :: "bytes \<Rightarrow> string" where
  "hexdigest bs = concat (map (\<lambda>b. [hex_digit (unat b div 16), hex_digit (unat b mod 16)]) bs)"

text \<open>
  \<^verbatim>\<open>url.encode()\<close>: a \<open>string\<close> of HOL is a list of 8-bit characters, so a URL is held as
  its UTF-8 bytes and encoding reads each character as its byte.
\<close>

definition encode :: "string \<Rightarrow> bytes" where
  "encode s = map (\<lambda>c. of_nat (of_char c)) s"

text \<open>\<^verbatim>\<open>def hash_url(url): return hashlib.md5(url.encode()).hexdigest()\<close>\<close>

definition hash_url :: "string \<Rightarrow> string" where
  "hash_url url = hexdigest (md5_digest (encode url))"

section \<open>The data frame and its deduplication\<close>

text \<open>
  A data frame is the list of its rows, in order. \<^verbatim>\<open>pd.read_csv\<close> is outside the program:
  it delivers an absent or empty field as NaN, so NaN is the only missing value of a row.
\<close>

record image_row =
  image_url :: pyval
  image_hash :: pyval

record video_row =
  video_url :: pyval

text \<open>\<^verbatim>\<open>df.dropna(subset=[col])\<close> keeps the rows whose cell in \<open>col\<close> is not missing.\<close>

definition dropna :: "('r \<Rightarrow> pyval) \<Rightarrow> 'r list \<Rightarrow> 'r list" where
  "dropna col df = filter (\<lambda>r. notna (col r)) df"

text \<open>
  \<^verbatim>\<open>df.drop_duplicates(subset=[col])\<close> (\<^verbatim>\<open>keep='first'\<close>): a row is dropped when an earlier
  row has the same cell in \<open>col\<close>.
\<close>

fun drop_duplicates_seen :: "('r \<Rightarrow> pyval) \<Rightarrow> pyval list \<Rightarrow> 'r list \<Rightarrow> 'r list" where
  "drop_duplicates_seen col seen [] = []"
| "drop_duplicates_seen col seen (r # rs) =
     (if col r \<in> set seen then drop_duplicates_seen col seen rs
      else r # drop_duplicates_seen col (col r # seen) rs)"

definition drop_duplicates :: "('r \<Rightarrow> pyval) \<Rightarrow> 'r list \<Rightarrow> 'r list" where
  "drop_duplicates col df = drop_duplicates_seen col [] df"

text \<open>
  \<^verbatim>\<open>media_data.dropna(subset=[col]).drop_duplicates(subset=[col])\<close>, the first statement of
  \<^verbatim>\<open>download_images\<close> and of \<^verbatim>\<open>download_videos\<close>.
\<close>

definition unique_rows :: "('r \<Rightarrow> pyval) \<Rightarrow> 'r list \<Rightarrow> 'r list" where
  "unique_rows col media_data = drop_duplicates col (dropna col media_data)"


section \<open>The world outside the program\<close>

subsection \<open>Exceptions\<close>

text \<open>
  What \<^verbatim>\<open>requests\<close> raises when no complete response arrives, and the exceptions of the
  program: \<^verbatim>\<open>requests.HTTPError\<close> with its status, and the built-in ones. Every one of
  them is an \<^verbatim>\<open>Exception\<close>.
\<close>

datatype transport_error =
  ConnectionError | Timeout | TooManyRedirects | MissingSchema | InvalidURL | ChunkedEncodingError

datatype exn = RequestException transport_error | HTTPError nat | IndexError | ValueError | OSError

subsection \<open>HTTP\<close>

text \<open>
  A response: its status, its headers, and its body as it arrives. \<open>pieces\<close> are the
  pieces in which \<^verbatim>\<open>iter_content\<close> hands the body over, in order: how the body is cut is
  decided by the transfer (the chunks of a chunked response, the decoding of a compressed
  one), not by the program. \<open>broken\<close> is the failure of the connection after those
  pieces, if there is one; what was read of a further piece is lost then. A header is
  text in Latin-1, one character for each byte.
\<close>

record response =
  status_code :: nat
  headers :: "(string \<times> string) list"
  pieces :: "bytes list"
  broken :: "transport_error option"

text \<open>\<^verbatim>\<open>response.content\<close>, the whole body: \<^verbatim>\<open>b"".join(self.iter_content(...))\<close>.\<close>

definition payload :: "response \<Rightarrow> bytes" where
  "payload r = concat (pieces r)"

subsection \<open>HTML documents, as bs4 holds them\<close>

datatype node = Tag string "(string \<times> string) list" "node list" | NavigableString string

subsection \<open>The disk\<close>

text \<open>
  How writing a path fails: \<^verbatim>\<open>open(path, 'wb')\<close> raises, or the write call number \<open>i\<close>
  (from 0) on the open file raises.
\<close>

datatype disk_fault = OpenFails | WriteFails nat

subsection \<open>The environment of one run\<close>

text \<open>
  \<open>net\<close> answers a GET of a URL; \<open>html_parser\<close> is
  \<^verbatim>\<open>bs4.BeautifulSoup(response.text, "html.parser")\<close>, from the body to the top nodes of the
  document; \<open>disk\<close> says how writing a path fails, if it does.
\<close>

record env =
  net :: "string \<Rightarrow> transport_error + response"
  html_parser :: "bytes \<Rightarrow> node list"
  disk :: "string \<Rightarrow> disk_fault option"

subsection \<open>The state the program changes\<close>

datatype log_entry = INFO string | ERROR string exn

datatype tqdm_event = BarOpen int string | BarUpdate nat | BarClose

text \<open>
  \<open>fs\<close> are the files, by path; \<open>logged\<close> the records of \<^verbatim>\<open>logging.info\<close> and
  \<^verbatim>\<open>logging.error\<close> (an error record holds the text before the exception, and the
  exception); \<open>tqdm\<close> what the progress bars were told; \<open>requested\<close> the argument of
  every call of \<^verbatim>\<open>requests.get\<close>, in order. Directories are not modelled: a path whose
  directory is missing is a path where \<open>disk\<close> says \<open>OpenFails\<close>.
\<close>

record world =
  fs :: "string \<rightharpoonup> bytes"
  logged :: "log_entry list"
  tqdm :: "tqdm_event list"
  requested :: "pyval list"

definition logging_info :: "string \<Rightarrow> world \<Rightarrow> world" where
  "logging_info msg w = w\<lparr>logged := logged w @ [INFO msg]\<rparr>"

definition logging_error :: "string \<Rightarrow> exn \<Rightarrow> world \<Rightarrow> world" where
  "logging_error msg err w = w\<lparr>logged := logged w @ [ERROR msg err]\<rparr>"

definition progress_bar_open :: "int \<Rightarrow> string \<Rightarrow> world \<Rightarrow> world" where
  "progress_bar_open n desc w = w\<lparr>tqdm := tqdm w @ [BarOpen n desc]\<rparr>"

definition progress_bar_update :: "nat \<Rightarrow> world \<Rightarrow> world" where
  "progress_bar_update n w = w\<lparr>tqdm := tqdm w @ [BarUpdate n]\<rparr>"

definition progress_bar_close :: "world \<Rightarrow> world" where
  "progress_bar_close w = w\<lparr>tqdm := tqdm w @ [BarClose]\<rparr>"

section \<open>Library calls\<close>

subsection \<open>\<^verbatim>\<open>os.path\<close> and files\<close>

text \<open>\<^verbatim>\<open>os.path.join(a, b)\<close> of posixpath, for two components.\<close>

definition path_join :: "string \<Rightarrow> string \<Rightarrow> string" where
  "path_join a b =
     (if b \<noteq> [] \<and> hd b = CHR ''/'' then b
      else if a = [] \<or> last a = CHR ''/'' then a @ b
      else a @ ''/'' @ b)"

definition path_exists :: "world \<Rightarrow> string \<Rightarrow> bool" where
  "path_exists w p = (p \<in> dom (fs w))"

text \<open>\<^verbatim>\<open>open(p, 'wb')\<close> creates the file or empties it; \<^verbatim>\<open>file.write\<close> appends.\<close>

definition open_wb :: "env \<Rightarrow> string \<Rightarrow> world \<Rightarrow> exn option \<times> world" where
  "open_wb E p w =
     (if disk E p = Some OpenFails then (Some OSError, w)
      else (None, w\<lparr>fs := (fs w)(p \<mapsto> [])\<rparr>))"

definition file_write :: "env \<Rightarrow> string \<Rightarrow> nat \<Rightarrow> bytes \<Rightarrow> world \<Rightarrow> exn option \<times> world" where
  "file_write E p i data w =
     (if disk E p = Some (WriteFails i) then (Some OSError, w)
      else (None, w\<lparr>fs := (fs w)(p \<mapsto> (case fs w p of None \<Rightarrow> [] | Some old \<Rightarrow> old) @ data)\<rparr>))"

subsection \<open>\<^verbatim>\<open>requests\<close>\<close>

text \<open>
  \<^verbatim>\<open>requests.get(url, stream=...)\<close>. A URL that is no string is turned into one by \<^verbatim>\<open>str\<close>,
  has no scheme then, and \<^verbatim>\<open>MissingSchema\<close> is raised. Without \<^verbatim>\<open>stream\<close> the whole body
  is read inside the call, so a connection that breaks raises there; with \<^verbatim>\<open>stream\<close> the
  call returns once the headers are read.
\<close>

definition requests_get :: "env \<Rightarrow> bool \<Rightarrow> pyval \<Rightarrow> world \<Rightarrow> (exn + response) \<times> world" where
  "requests_get E stream url w =
     (let w1 = w\<lparr>requested := requested w @ [url]\<rparr> in
      case url of
        Str u \<Rightarrow>
          (case net E u of
             Inl e \<Rightarrow> (Inl (RequestException e), w1)
           | Inr r \<Rightarrow>
               (case broken r of
                  None \<Rightarrow> (Inr r, w1)
                | Some e \<Rightarrow> if stream then (Inr r, w1) else (Inl (RequestException e), w1)))
      | PyNone \<Rightarrow> (Inl (RequestException MissingSchema), w1)
      | NaN \<Rightarrow> (Inl (RequestException MissingSchema), w1))"

text \<open>\<^verbatim>\<open>response.raise_for_status()\<close> raises for the statuses 400 to 599 and no other.\<close>

definition raise_for_status :: "response \<Rightarrow> exn option" where
  "raise_for_status r =
     (if 400 \<le> status_code r \<and> status_code r < 600 then Some (HTTPError (status_code r))
      else None)"

text \<open>
  \<^verbatim>\<open>response.iter_content(n)\<close> on a streamed response: the pieces of the body as they
  arrive, then the failure of the connection if it breaks. The block size \<open>n\<close> is what
  the program asks for; the pieces are those of the transfer, whatever \<open>n\<close> is.
\<close>

definition iter_content :: "response \<Rightarrow> nat \<Rightarrow> (transport_error + bytes) list" where
  "iter_content r n =
     map Inr (pieces r) @ (case broken r of None \<Rightarrow> [] | Some e \<Rightarrow> [Inl e])"

text \<open>\<^verbatim>\<open>response.headers.get(name)\<close>: the names of headers match without regard to case.\<close>

definition lower_char :: "char \<Rightarrow> char" where
  "lower_char c =
     (case map_of (zip ''ABCDEFGHIJKLMNOPQRSTUVWXYZ'' ''abcdefghijklmnopqrstuvwxyz'') c of
        None \<Rightarrow> c | Some l \<Rightarrow> l)"

definition headers_get :: "(string \<times> string) list \<Rightarrow> string \<Rightarrow> string option" where
  "headers_get hs name =
     map_option snd (find (\<lambda>kv. map lower_char (fst kv) = map lower_char name) hs)"

subsection \<open>\<^verbatim>\<open>int\<close> of a string\<close>

text \<open>
  \<^verbatim>\<open>int(s)\<close> for a string of Latin-1 characters. The blanks that are dropped at both ends are
  tab, line feed, vertical tab, form feed, carriage return and space, and the two blanks
  of Latin-1 beyond ASCII, U+0085 and U+00A0; the separators U+001C to U+001F are not
  dropped. A sign may come first, then digits, which single underscores may group;
  more than 4300 digits are refused. Anything else raises \<^verbatim>\<open>ValueError\<close>.
\<close>

definition is_int_space :: "char \<Rightarrow> bool" where
  "is_int_space c = ((of_char c :: nat) \<in> {9, 10, 11, 12, 13, 32, 133, 160})"

definition is_digit :: "char \<Rightarrow> bool" where
  "is_digit c = (48 \<le> (of_char c :: nat) \<and> (of_char c :: nat) \<le> 57)"

definition strip :: "string \<Rightarrow> string" where
  "strip s = rev (dropWhile is_int_space (rev (dropWhile is_int_space s)))"

fun parse_digits :: "nat \<Rightarrow> bool \<Rightarrow> string \<Rightarrow> nat option" where
  "parse_digits acc prev [] = (if prev then Some acc else None)"
| "parse_digits acc prev (c # cs) =
     (if is_digit c then parse_digits (10 * acc + (of_char c - 48)) True cs
      else if c = CHR ''_'' \<and> prev then parse_digits acc False cs
      else None)"

definition py_int :: "string \<Rightarrow> exn + int" where
  "py_int s =
     (let t = strip s;
          neg = (t \<noteq> [] \<and> hd t = CHR ''-'');
          ds = (if t \<noteq> [] \<and> (hd t = CHR ''-'' \<or> hd t = CHR ''+'') then tl t else t)
      in if 4300 < length (filter is_digit ds) then Inl ValueError
         else case parse_digits 0 False ds of
                None \<Rightarrow> Inl ValueError
              | Some n \<Rightarrow> Inr (if neg then - int n else int n))"

subsection \<open>bs4\<close>

text \<open>
  \<^verbatim>\<open>find_all\<close> searches the tags below its receiver in document order. \<^verbatim>\<open>tags_of\<close> lists a
  node's tags that way: the node itself, then those of its children, left to right.
\<close>

fun tags_of :: "node \<Rightarrow> node list" where
  "tags_of (Tag nm attrs cs) = Tag nm attrs cs # concat (map tags_of cs)"
| "tags_of (NavigableString s) = []"

definition descendants :: "node list \<Rightarrow> node list" where
  "descendants nodes = concat (map tags_of nodes)"

fun tag_contents :: "node \<Rightarrow> node list" where
  "tag_contents (Tag nm attrs cs) = cs"
| "tag_contents (NavigableString s) = []"

text \<open>
  A class attribute is the list of its words, the runs of characters that are no blanks.
  The blanks are those of \<^verbatim>\<open>str.isspace\<close> among the first 256 characters.
\<close>

definition is_space :: "char \<Rightarrow> bool" where
  "is_space c = ((of_char c :: nat) \<in> {9, 10, 11, 12, 13, 28, 29, 30, 31, 32, 133, 160})"

fun split_acc :: "string \<Rightarrow> string \<Rightarrow> string list" where
  "split_acc cur [] = (if cur = [] then [] else [rev cur])"
| "split_acc cur (c # cs) =
     (if is_space c then (if cur = [] then split_acc [] cs else rev cur # split_acc [] cs)
      else split_acc (c # cur) cs)"

fun has_name :: "string \<Rightarrow> node \<Rightarrow> bool" where
  "has_name nm (Tag n attrs cs) = (n = nm)"
| "has_name nm (NavigableString s) = False"

fun has_class :: "string \<Rightarrow> node \<Rightarrow> bool" where
  "has_class c (Tag n attrs cs) =
     (case map_of attrs ''class'' of None \<Rightarrow> False | Some v \<Rightarrow> c \<in> set (split_acc [] v))"
| "has_class c (NavigableString s) = False"

text \<open>\<^verbatim>\<open>x.find_all(name)\<close> and \<^verbatim>\<open>x.find_all(name, class_=c)\<close>, \<open>nodes\<close> the children of \<open>x\<close>.\<close>

definition find_all :: "node list \<Rightarrow> string \<Rightarrow> string option \<Rightarrow> node list" where
  "find_all nodes nm cls =
     filter (\<lambda>t. has_name nm t \<and> (case cls of None \<Rightarrow> True | Some c \<Rightarrow> has_class c t))
       (descendants nodes)"

text \<open>\<^verbatim>\<open>tag.get(key)\<close>: the attribute, None when the tag has none of that name.\<close>

fun tag_get :: "node \<Rightarrow> string \<Rightarrow> pyval" where
  "tag_get (Tag n attrs cs) key = (case map_of attrs key of None \<Rightarrow> PyNone | Some v \<Rightarrow> Str v)"
| "tag_get (NavigableString s) key = PyNone"

section \<open>The program\<close>

text \<open>
  A function of the program takes the world and returns the exception that leaves it
  (\<open>None\<close> when it returns normally) with the world it leaves behind.
\<close>

subsection \<open>\<^verbatim>\<open>download_image\<close>\<close>

text \<open>
  The two handlers that close \<^verbatim>\<open>download_image\<close> and \<^verbatim>\<open>download_video\<close>:
  \<^verbatim>\<open>except requests.HTTPError as http_err: logging.error(f"HTTP error occurred: {http_err}")\<close>
  and \<^verbatim>\<open>except Exception as err: logging.error(f"An error occurred: {err}")\<close>.
\<close>

fun except_clauses :: "exn \<Rightarrow> world \<Rightarrow> world" where
  "except_clauses (HTTPError s) w = logging_error ''HTTP error occurred: '' (HTTPError s) w"
| "except_clauses err w = logging_error ''An error occurred: '' err w"

text \<open>The statements under \<^verbatim>\<open>try\<close> in \<^verbatim>\<open>download_image\<close>.\<close>

definition image_try :: "env \<Rightarrow> pyval \<Rightarrow> string \<Rightarrow> world \<Rightarrow> exn option \<times> world" where
  "image_try E url file_path w =
     (case requests_get E False url w of
        (Inl e, w1) \<Rightarrow> (Some e, w1)
      | (Inr response, w1) \<Rightarrow>
          (case raise_for_status response of
             Some e \<Rightarrow> (Some e, w1)
           | None \<Rightarrow>
               (case open_wb E file_path w1 of
                  (Some e, w2) \<Rightarrow> (Some e, w2)
                | (None, w2) \<Rightarrow>
                    (case file_write E file_path 0 (payload response) w2 of
                       (Some e, w3) \<Rightarrow> (Some e, w3)
                     | (None, w3) \<Rightarrow>
                         (None, logging_info (''Downloaded and saved image to: '' @ file_path) w3)))))"

definition download_image :: "env \<Rightarrow> pyval \<Rightarrow> pyval \<Rightarrow> string \<Rightarrow> world \<Rightarrow> exn option \<times> world" where
  "download_image E url hash download_dir w =
     (let file_name = py_str hash @ ''.jpg'';
          file_path = path_join download_dir file_name
      in if path_exists w file_path
         then (None, logging_info (''Image already exists: '' @ file_path @ ''. Skipping download.'') w)
         else (case image_try E url file_path w of
                 (None, w1) \<Rightarrow> (None, w1)
               | (Some err, w1) \<Rightarrow> (None, except_clauses err w1)))"

subsection \<open>The worker pool\<close>

text \<open>
  \<^verbatim>\<open>ThreadPoolExecutor\<close> is modelled by one of its schedules: a task runs to its end when it
  is submitted. The loop over \<^verbatim>\<open>as_completed\<close> calls \<^verbatim>\<open>future.result()\<close>, which raises what a
  task raised; leaving the \<^verbatim>\<open>with\<close> block waits for every task. So all tasks run, and the
  first exception of a task leaves the function.
\<close>

fun run_tasks :: "(world \<Rightarrow> exn option \<times> world) list \<Rightarrow> world \<Rightarrow> exn option \<times> world" where
  "run_tasks [] w = (None, w)"
| "run_tasks (t # ts) w =
     (case t w of (r, w1) \<Rightarrow>
        (case run_tasks ts w1 of (r', w2) \<Rightarrow>
           ((case r of None \<Rightarrow> r' | Some e \<Rightarrow> Some e), w2)))"

subsection \<open>\<^verbatim>\<open>download_images\<close>\<close>

definition download_images :: "env \<Rightarrow> image_row list \<Rightarrow> string \<Rightarrow> world \<Rightarrow> exn option \<times> world" where
  "download_images E media_data download_dir w =
     (let unique_images = unique_rows image_url media_data
      in run_tasks
           (map (\<lambda>row. download_image E (image_url row) (image_hash row) download_dir)
              unique_images) w)"

subsection \<open>\<^verbatim>\<open>extract_highest_quality_video_url\<close>\<close>

text \<open>
  An index \<^verbatim>\<open>[0]\<close> into an empty list raises \<^verbatim>\<open>IndexError\<close>. The status of the response is
  not looked at.
\<close>

definition extract_highest_quality_video_url ::
    "env \<Rightarrow> string \<Rightarrow> world \<Rightarrow> (exn + pyval) \<times> world" where
  "extract_highest_quality_video_url E api_url w =
     (case requests_get E False (Str api_url) w of
        (Inl e, w1) \<Rightarrow> (Inl e, w1)
      | (Inr response, w1) \<Rightarrow>
          (let data = html_parser E (payload response) in
           case find_all data ''div'' (Some ''origin-top-right'') of
             [] \<Rightarrow> (Inl IndexError, w1)
           | download_button # _ \<Rightarrow>
               (case find_all (tag_contents download_button) ''a'' None of
                  [] \<Rightarrow> (Inl IndexError, w1)
                | first_button # _ \<Rightarrow> (Inr (tag_get first_button ''href''), w1))))"

subsection \<open>\<^verbatim>\<open>download_video\<close>\<close>

definition block_size :: nat where
  "block_size = 1024"

text \<open>\<^verbatim>\<open>int(response.headers.get("content-length", 0))\<close>\<close>

definition total_size :: "response \<Rightarrow> exn + int" where
  "total_size r =
     (case headers_get (headers r) ''content-length'' of None \<Rightarrow> Inr 0 | Some s \<Rightarrow> py_int s)"

text \<open>
  The loop \<^verbatim>\<open>for data in response.iter_content(block_size)\<close>: the bar is told the length of
  the piece, then the piece is written. \<open>i\<close> counts the writes.
\<close>

fun write_stream ::
    "env \<Rightarrow> string \<Rightarrow> nat \<Rightarrow> (transport_error + bytes) list \<Rightarrow> world \<Rightarrow> exn option \<times> world" where
  "write_stream E p i [] w = (None, w)"
| "write_stream E p i (Inl e # rest) w = (Some (RequestException e), w)"
| "write_stream E p i (Inr data # rest) w =
     (case file_write E p i data (progress_bar_update (length data) w) of
        (Some e, w1) \<Rightarrow> (Some e, w1)
      | (None, w1) \<Rightarrow> write_stream E p (Suc i) rest w1)"

text \<open>The statements under \<^verbatim>\<open>try\<close> in \<^verbatim>\<open>download_video\<close>.\<close>

definition video_try :: "env \<Rightarrow> pyval \<Rightarrow> string \<Rightarrow> world \<Rightarrow> exn option \<times> world" where
  "video_try E url file_path w =
     (case requests_get E True url w of
        (Inl e, w1) \<Rightarrow> (Some e, w1)
      | (Inr response, w1) \<Rightarrow>
          (case raise_for_status response of
             Some e \<Rightarrow> (Some e, w1)
           | None \<Rightarrow>
               (case total_size response of
                  Inl e \<Rightarrow> (Some e, w1)
                | Inr size_total \<Rightarrow>
                    (case open_wb E file_path (progress_bar_open size_total (''Downloading '' @ file_path) w1) of
                       (Some e, w2) \<Rightarrow> (Some e, w2)
                     | (None, w2) \<Rightarrow>
                         (case write_stream E file_path 0 (iter_content response block_size) w2 of
                            (Some e, w3) \<Rightarrow> (Some e, w3)
                          | (None, w3) \<Rightarrow>
                              (None,
                               logging_info
                                 (''Video downloaded successfully and saved to: '' @ file_path)
                                 (progress_bar_close w3)))))))"

definition download_video :: "env \<Rightarrow> pyval \<Rightarrow> pyval \<Rightarrow> string \<Rightarrow> world \<Rightarrow> exn option \<times> world" where
  "download_video E url hash download_dir w =
     (let file_name = py_str hash @ ''.mp4'';
          file_path = path_join download_dir file_name
      in if path_exists w file_path
         then (None, logging_info (''Video already exists: '' @ file_path @ ''. Skipping download.'') w)
         else (case video_try E url file_path w of
                 (None, w1) \<Rightarrow> (None, w1)
               | (Some err, w1) \<Rightarrow> (None, except_clauses err w1)))"

subsection \<open>\<^verbatim>\<open>download_videos\<close>\<close>

text \<open>\<^verbatim>\<open>lambda x: hash_url(x) if pd.notna(x) else None\<close>, the column \<^verbatim>\<open>video_hash\<close>.\<close>

definition video_hash :: "pyval \<Rightarrow> pyval" where
  "video_hash x = (if notna x then Str (hash_url (py_str x)) else PyNone)"

text \<open>
  The body of the loop over the rows. The call of \<^verbatim>\<open>extract_highest_quality_video_url\<close> is
  under a \<^verbatim>\<open>try\<close> whose handler logs any exception; \<^verbatim>\<open>executor.submit\<close> runs
  \<^verbatim>\<open>download_video\<close>.
\<close>

definition videos_row :: "env \<Rightarrow> string \<Rightarrow> video_row \<Rightarrow> world \<Rightarrow> exn option \<times> world" where
  "videos_row E download_dir row w =
     (let url = video_url row;
          hash = video_hash url;
          file_name = py_str hash @ ''.mp4'';
          file_path = path_join download_dir file_name
      in if path_exists w file_path
         then (None, logging_info (''Video already exists: '' @ file_path @ ''. Skipping download.'') w)
         else (case extract_highest_quality_video_url E
                      (''https://twitsave.com/info?url='' @ py_str url) w of
                 (Inr highest_quality_url, w1) \<Rightarrow>
                   download_video E highest_quality_url hash download_dir w1
               | (Inl err, w1) \<Rightarrow>
                   (None, logging_error ''An error occurred while extracting video URL: '' err w1)))"

definition download_videos :: "env \<Rightarrow> video_row list \<Rightarrow> string \<Rightarrow> world \<Rightarrow> exn option \<times> world" where
  "download_videos E media_data download_dir w =
     (let unique_videos = unique_rows video_url media_data
      in run_tasks (map (videos_row E download_dir) unique_videos) w)"

subsection \<open>\<^verbatim>\<open>run_media_collection\<close>\<close>

definition image_save_dir :: string where
  "image_save_dir = ''/Volumes/T7/ukgetweets2/collected/images''"

definition video_save_dir :: string where
  "video_save_dir = ''/Volumes/T7/ukgetweets2/collected/videos''"

text \<open>
  The two frames are what \<^verbatim>\<open>pd.read_csv\<close> reads from the two CSV files. The two downloads
  are tasks of an outer pool.
\<close>

definition run_media_collection ::
    "env \<Rightarrow> image_row list \<Rightarrow> video_row list \<Rightarrow> world \<Rightarrow> exn option \<times> world" where
  "run_media_collection E images videos w =
     (case run_tasks [download_images E images image_save_dir,
                      download_videos E videos video_save_dir] w of
        (None, w1) \<Rightarrow> (None, logging_info ''Media collection process completed.'' w1)
      | (Some e, w1) \<Rightarrow> (Some e, w1))"

section \<open>What a download writes\<close>

text \<open>
  The bytes that the loop of \<^verbatim>\<open>download_video\<close> appends to the file, what it tells the bar,
  and the exception that ends it, each as a function of the pieces alone.
\<close>

fun stream_bytes :: "env \<Rightarrow> string \<Rightarrow> nat \<Rightarrow> (transport_error + bytes) list \<Rightarrow> bytes" where
  "stream_bytes E p i [] = []"
| "stream_bytes E p i (Inl e # rest) = []"
| "stream_bytes E p i (Inr data # rest) =
     (if disk E p = Some (WriteFails i) then [] else data @ stream_bytes E p (Suc i) rest)"

fun stream_updates :: "env \<Rightarrow> string \<Rightarrow> nat \<Rightarrow> (transport_error + bytes) list \<Rightarrow> nat list" where
  "stream_updates E p i [] = []"
| "stream_updates E p i (Inl e # rest) = []"
| "stream_updates E p i (Inr data # rest) =
     length data # (if disk E p = Some (WriteFails i) then [] else stream_updates E p (Suc i) rest)"

fun stream_exn :: "env \<Rightarrow> string \<Rightarrow> nat \<Rightarrow> (transport_error + bytes) list \<Rightarrow> exn option" where
  "stream_exn E p i [] = None"
| "stream_exn E p i (Inl e # rest) = Some (RequestException e)"
| "stream_exn E p i (Inr data # rest) =
     (if disk E p = Some (WriteFails i) then Some OSError else stream_exn E p (Suc i) rest)"

text \<open>
  The world with no file, no record and no request; and what an attempt to download
  leaves at its path there: \<open>None\<close> when it creates no file.
\<close>

definition empty_world :: world where
  "empty_world = \<lparr>fs = Map.empty, logged = [], tqdm = [], requested = []\<rparr>"

definition image_effect :: "env \<Rightarrow> pyval \<Rightarrow> string \<Rightarrow> bytes option" where
  "image_effect E url p = fs (snd (image_try E url p empty_world)) p"

definition video_effect :: "env \<Rightarrow> pyval \<Rightarrow> string \<Rightarrow> bytes option" where
  "video_effect E url p = fs (snd (video_try E url p empty_world)) p"

text \<open>A step that writes \<open>b\<close> to the path \<open>p\<close> unless a file is there or there is no \<open>b\<close>.\<close>

fun gated :: "string \<times> bytes option \<Rightarrow> (string \<rightharpoonup> bytes) \<Rightarrow> (string \<rightharpoonup> bytes)" where
  "gated (p, eff) m = (if p \<in> dom m then m else case eff of None \<Rightarrow> m | Some b \<Rightarrow> m(p \<mapsto> b))"

text \<open>The paths of a row's file, and the step that a row is for the files.\<close>

definition image_path :: "string \<Rightarrow> image_row \<Rightarrow> string" where
  "image_path download_dir row = path_join download_dir (py_str (image_hash row) @ ''.jpg'')"

definition video_path :: "string \<Rightarrow> video_row \<Rightarrow> string" where
  "video_path download_dir row =
     path_join download_dir (py_str (video_hash (video_url row)) @ ''.mp4'')"

definition landing_url :: "video_row \<Rightarrow> string" where
  "landing_url row = ''https://twitsave.com/info?url='' @ py_str (video_url row)"

definition image_step :: "env \<Rightarrow> string \<Rightarrow> image_row \<Rightarrow> string \<times> bytes option" where
  "image_step E download_dir row =
     (image_path download_dir row, image_effect E (image_url row) (image_path download_dir row))"

definition video_step :: "env \<Rightarrow> string \<Rightarrow> video_row \<Rightarrow> string \<times> bytes option" where
  "video_step E download_dir row =
     (video_path download_dir row,
      case fst (extract_highest_quality_video_url E (landing_url row) empty_world) of
        Inl err \<Rightarrow> None
      | Inr highest_quality_url \<Rightarrow> video_effect E highest_quality_url (video_path download_dir row))"

text \<open>A body of 204800 bytes, for the streaming scenario.\<close>

definition body_204800 :: bytes where
  "body_204800 = replicate 204800 0"

text \<open>
  A row whose download cannot fail once it is tried: the disk takes the file, the answer
  to the GET is complete and \<^verbatim>\<open>raise_for_status\<close> lets it pass; for a video, the landing page
  gives a URL first, and the Content-Length of the answer, if it has one, is a number.
\<close>

definition image_ok :: "env \<Rightarrow> string \<Rightarrow> image_row \<Rightarrow> bool" where
  "image_ok E download_dir row =
     (disk E (image_path download_dir row) = None \<and>
      (case image_url row of
         Str u \<Rightarrow>
           (case net E u of
              Inr r \<Rightarrow> broken r = None \<and> raise_for_status r = None
            | Inl e \<Rightarrow> False)
       | _ \<Rightarrow> False))"

definition video_ok :: "env \<Rightarrow> string \<Rightarrow> video_row \<Rightarrow> bool" where
  "video_ok E download_dir row =
     (disk E (video_path download_dir row) = None \<and>
      (case fst (extract_highest_quality_video_url E (landing_url row) empty_world) of
         Inr (Str u) \<Rightarrow>
           (case net E u of
              Inr r \<Rightarrow>
                broken r = None \<and> raise_for_status r = None \<and>
                (case total_size r of Inr n \<Rightarrow> True | Inl e \<Rightarrow> False)
            | Inl e \<Rightarrow> False)
       | _ \<Rightarrow> False))"

section \<open>Deduplication\<close>

lemma drop_duplicates_seen_set:
  "col ` set (drop_duplicates_seen col seen rs) = col ` set rs - set seen"
  by (induction rs arbitrary: seen) auto

lemma drop_duplicates_seen_fresh:
  "r \<in> set (drop_duplicates_seen col seen rs) \<Longrightarrow> col r \<notin> set seen"
  using drop_duplicates_seen_set [of col seen rs] by force

lemma drop_duplicates_seen_distinct:
  "distinct (map col (drop_duplicates_seen col seen rs))"
  by (induction rs arbitrary: seen) (auto dest: drop_duplicates_seen_fresh)

lemma drop_duplicates_seen_first:
  "r \<in> set (drop_duplicates_seen col seen rs) \<Longrightarrow> find (\<lambda>x. col x = col r) rs = Some r"
proof (induction rs arbitrary: seen)
  case Nil
  then show ?case by simp
next
  case (Cons a rs)
  show ?case
  proof (cases "col a = col r")
    case True
    with Cons.prems have "r = a"
      by (auto split: if_splits dest: drop_duplicates_seen_fresh)
    with True show ?thesis by simp
  next
    case False
    with Cons.prems have "r \<in> set (drop_duplicates_seen col seen rs) \<or>
        r \<in> set (drop_duplicates_seen col (col a # seen) rs)"
      by (auto split: if_splits)
    with Cons.IH False show ?thesis by auto
  qed
qed

lemma find_dropna:
  "notna (col r) \<Longrightarrow> find (\<lambda>x. col x = col r) (dropna col df) = find (\<lambda>x. col x = col r) df"
  by (induction df) (auto simp: dropna_def)

lemma notna_iff: "notna v \<longleftrightarrow> (\<exists>s. v = Str s)"
  by (cases v) auto

lemma unique_rows_set:
  "col ` set (unique_rows col df) = {v \<in> col ` set df. notna v}"
  by (auto simp: unique_rows_def drop_duplicates_def dropna_def drop_duplicates_seen_set)

lemma unique_rows_notna: "r \<in> set (unique_rows col df) \<Longrightarrow> notna (col r)"
  using unique_rows_set [of col df] by force

lemma unique_rows_Str: "r \<in> set (unique_rows col df) \<Longrightarrow> \<exists>u. col r = Str u"
  using unique_rows_notna [of r col df] by (simp add: notna_iff)

lemma unique_rows_distinct: "distinct (map col (unique_rows col df))"
  by (simp add: unique_rows_def drop_duplicates_def drop_duplicates_seen_distinct)

lemma unique_rows_subset: "set (unique_rows col df) \<subseteq> set df"
proof -
  have "set (drop_duplicates_seen col seen rs) \<subseteq> set rs" for seen and rs :: "'a list"
    by (induction rs arbitrary: seen) auto
  then show ?thesis
    by (force simp: unique_rows_def drop_duplicates_def dropna_def)
qed

lemma unique_rows_first:
  assumes "r \<in> set (unique_rows col df)"
  shows "find (\<lambda>x. col x = col r) df = Some r"
proof -
  have "find (\<lambda>x. col x = col r) (dropna col df) = Some r"
    using assms by (simp add: unique_rows_def drop_duplicates_def drop_duplicates_seen_first)
  with unique_rows_notna [OF assms] show ?thesis
    by (simp add: find_dropna)
qed

text \<open>
  C3. The rows that \<^verbatim>\<open>dropna\<close> and \<^verbatim>\<open>drop_duplicates\<close> leave: none has a missing URL;
  no URL occurs twice; every URL of the input that is not missing occurs; the row kept for a
  URL is the first row of the input with that URL; the set of URLs kept is the same for
  any input with the same rows, in whatever order and however often repeated; and the
  records with the URLs A, A, B and None leave A and B.
\<close>

theorem deduplication:
  "(\<forall>r \<in> set (unique_rows col df). \<exists>u. col r = Str u)
   \<and> distinct (map col (unique_rows col df))
   \<and> set (map col (unique_rows col df)) = {v \<in> set (map col df). \<exists>u. v = Str u}
   \<and> (\<forall>r \<in> set (unique_rows col df). find (\<lambda>x. col x = col r) df = Some r)
   \<and> (\<forall>df'. set df' = set df \<longrightarrow>
          set (map col (unique_rows col df')) = set (map col (unique_rows col df)))
   \<and> map video_url (unique_rows video_url
         [\<lparr>video_url = Str ''A''\<rparr>, \<lparr>video_url = Str ''A''\<rparr>,
          \<lparr>video_url = Str ''B''\<rparr>, \<lparr>video_url = PyNone\<rparr>])
       = [Str ''A'', Str ''B'']"
proof -
  have a: "\<forall>r \<in> set (unique_rows col df). \<exists>u. col r = Str u"
    by (simp add: unique_rows_Str)
  have b: "set (map col (unique_rows col df)) = {v \<in> set (map col df). \<exists>u. v = Str u}"
    by (simp add: unique_rows_set notna_iff)
  have c: "\<forall>r \<in> set (unique_rows col df). find (\<lambda>x. col x = col r) df = Some r"
    by (simp add: unique_rows_first)
  have d: "\<forall>df'. set df' = set df \<longrightarrow>
          set (map col (unique_rows col df')) = set (map col (unique_rows col df))"
    by (simp add: unique_rows_set)
  have e: "map video_url (unique_rows video_url
         [\<lparr>video_url = Str ''A''\<rparr>, \<lparr>video_url = Str ''A''\<rparr>,
          \<lparr>video_url = Str ''B''\<rparr>, \<lparr>video_url = PyNone\<rparr>])
       = [Str ''A'', Str ''B'']"
    by (simp add: unique_rows_def drop_duplicates_def dropna_def)
  from a b c d e unique_rows_distinct [of col df] show ?thesis by blast
qed

theorem deduplication_witness:
  "unique_rows image_url
     [\<lparr>image_url = Str ''A'', image_hash = Str ''1''\<rparr>, \<lparr>image_url = NaN, image_hash = Str ''2''\<rparr>,
      \<lparr>image_url = Str ''B'', image_hash = Str ''3''\<rparr>, \<lparr>image_url = Str ''A'', image_hash = Str ''4''\<rparr>]
     = [\<lparr>image_url = Str ''A'', image_hash = Str ''1''\<rparr>, \<lparr>image_url = Str ''B'', image_hash = Str ''3''\<rparr>]
   \<and> find (\<lambda>x. image_url x = Str ''A'')
       [\<lparr>image_url = Str ''A'', image_hash = Str ''1''\<rparr>, \<lparr>image_url = NaN, image_hash = Str ''2''\<rparr>,
        \<lparr>image_url = Str ''B'', image_hash = Str ''3''\<rparr>, \<lparr>image_url = Str ''A'', image_hash = Str ''4''\<rparr>]
       = Some \<lparr>image_url = Str ''A'', image_hash = Str ''1''\<rparr>
   \<and> set (map image_url (unique_rows image_url
       [\<lparr>image_url = Str ''A'', image_hash = Str ''4''\<rparr>, \<lparr>image_url = Str ''B'', image_hash = Str ''3''\<rparr>,
        \<lparr>image_url = NaN, image_hash = Str ''2''\<rparr>, \<lparr>image_url = Str ''A'', image_hash = Str ''1''\<rparr>]))
       = {Str ''A'', Str ''B''}"
  using deduplication [of image_url
     "[\<lparr>image_url = Str ''A'', image_hash = Str ''1''\<rparr>, \<lparr>image_url = NaN, image_hash = Str ''2''\<rparr>,
      \<lparr>image_url = Str ''B'', image_hash = Str ''3''\<rparr>, \<lparr>image_url = Str ''A'', image_hash = Str ''4''\<rparr>]"]
  by (simp add: unique_rows_def drop_duplicates_def dropna_def insert_commute)

section \<open>The calls, one by one\<close>

lemma logging_info_sel [simp]:
  "fs (logging_info m w) = fs w" "logged (logging_info m w) = logged w @ [INFO m]"
  "tqdm (logging_info m w) = tqdm w" "requested (logging_info m w) = requested w"
  by (simp_all add: logging_info_def)

lemma logging_error_sel [simp]:
  "fs (logging_error m e w) = fs w" "logged (logging_error m e w) = logged w @ [ERROR m e]"
  "tqdm (logging_error m e w) = tqdm w" "requested (logging_error m e w) = requested w"
  by (simp_all add: logging_error_def)

lemma except_clauses_sel [simp]:
  "fs (except_clauses e w) = fs w" "tqdm (except_clauses e w) = tqdm w"
  "requested (except_clauses e w) = requested w"
  by (cases e; simp)+

lemma except_clauses_logged [simp]:
  "logged (except_clauses e w) =
     logged w @ [ERROR (case e of HTTPError s \<Rightarrow> ''HTTP error occurred: ''
                        | _ \<Rightarrow> ''An error occurred: '') e]"
  by (cases e) simp_all

lemma progress_bar_sel [simp]:
  "fs (progress_bar_open n d w) = fs w" "logged (progress_bar_open n d w) = logged w"
  "tqdm (progress_bar_open n d w) = tqdm w @ [BarOpen n d]"
  "requested (progress_bar_open n d w) = requested w"
  "fs (progress_bar_update k w) = fs w" "logged (progress_bar_update k w) = logged w"
  "tqdm (progress_bar_update k w) = tqdm w @ [BarUpdate k]"
  "requested (progress_bar_update k w) = requested w"
  "fs (progress_bar_close w) = fs w" "logged (progress_bar_close w) = logged w"
  "tqdm (progress_bar_close w) = tqdm w @ [BarClose]"
  "requested (progress_bar_close w) = requested w"
  by (simp_all add: progress_bar_open_def progress_bar_update_def progress_bar_close_def)

lemma requests_get_snd [simp]:
  "snd (requests_get E s url w) = w\<lparr>requested := requested w @ [url]\<rparr>"
  by (simp add: requests_get_def Let_def split: pyval.splits sum.splits option.splits)

lemma requests_get_fst: "fst (requests_get E s url w) = fst (requests_get E s url w')"
  by (simp add: requests_get_def Let_def split: pyval.splits sum.splits option.splits)

lemma requests_get_eq:
  "requests_get E s url w =
     (fst (requests_get E s url empty_world), w\<lparr>requested := requested w @ [url]\<rparr>)"
  using requests_get_fst [of E s url w empty_world] requests_get_snd [of E s url w]
  by (metis prod.collapse)

text \<open>The loop of \<^verbatim>\<open>download_video\<close> on an open file.\<close>

lemma write_stream_eq:
  "fs w p = Some c \<Longrightarrow>
   write_stream E p i evs w =
     (stream_exn E p i evs,
      w\<lparr>fs := (fs w)(p \<mapsto> c @ stream_bytes E p i evs),
        tqdm := tqdm w @ map BarUpdate (stream_updates E p i evs)\<rparr>)"
proof (induction evs arbitrary: w c i)
  case Nil
  then have "(fs w)(p \<mapsto> c) = fs w" by (simp add: fun_upd_idem)
  then show ?case by simp
next
  case (Cons ev evs)
  show ?case
  proof (cases ev)
    case (Inl e)
    from Cons.prems have "(fs w)(p \<mapsto> c) = fs w" by (simp add: fun_upd_idem)
    with Inl show ?thesis by simp
  next
    case (Inr data)
    show ?thesis
    proof (cases "disk E p = Some (WriteFails i)")
      case True
      from Cons.prems have "(fs w)(p \<mapsto> c) = fs w" by (simp add: fun_upd_idem)
      with True Inr show ?thesis
        by (simp add: file_write_def progress_bar_update_def)
    next
      case False
      let ?w1 = "(progress_bar_update (length data) w)\<lparr>fs := (fs w)(p \<mapsto> c @ data)\<rparr>"
      have fw: "file_write E p i data (progress_bar_update (length data) w) = (None, ?w1)"
        using False Cons.prems by (simp add: file_write_def)
      have "fs ?w1 p = Some (c @ data)" by simp
      from Cons.IH [OF this, of "Suc i"] fw False Inr show ?thesis
        by (simp add: progress_bar_update_def fun_upd_def cong: if_cong)
    qed
  qed
qed

section \<open>The attempts\<close>

lemma image_try_fst: "fst (image_try E url p w) = fst (image_try E url p w')"
  unfolding image_try_def
  by (subst requests_get_eq, subst (2) requests_get_eq)
     (simp add: open_wb_def file_write_def split: sum.splits option.splits)

lemma image_try_fs:
  "fs (snd (image_try E url p w)) =
     (case image_effect E url p of None \<Rightarrow> fs w | Some b \<Rightarrow> (fs w)(p \<mapsto> b))"
  unfolding image_try_def image_effect_def
  by (subst requests_get_eq, subst (2) requests_get_eq)
     (simp add: open_wb_def file_write_def empty_world_def split: sum.splits option.splits)

lemma image_try_requested: "requested (snd (image_try E url p w)) = requested w @ [url]"
  unfolding image_try_def
  by (subst requests_get_eq)
     (simp add: open_wb_def file_write_def split: sum.splits option.splits)

lemma image_try_logged:
  "logged (snd (image_try E url p w)) =
     logged w @ (case fst (image_try E url p w) of
                   None \<Rightarrow> [INFO (''Downloaded and saved image to: '' @ p)] | Some e \<Rightarrow> [])"
  unfolding image_try_def
  by (subst requests_get_eq, subst (2) requests_get_eq)
     (simp add: open_wb_def file_write_def split: sum.splits option.splits)

lemma write_stream_opened:
  "write_stream E p i evs (w\<lparr>fs := m(p \<mapsto> c)\<rparr>) =
     (stream_exn E p i evs,
      w\<lparr>fs := m(p \<mapsto> c @ stream_bytes E p i evs),
        tqdm := tqdm w @ map BarUpdate (stream_updates E p i evs)\<rparr>)"
  using write_stream_eq [of "w\<lparr>fs := m(p \<mapsto> c)\<rparr>" p c E i evs] by simp

lemma video_try_fst: "fst (video_try E url p w) = fst (video_try E url p w')"
  unfolding video_try_def
  by (subst requests_get_eq, subst (2) requests_get_eq)
     (simp add: open_wb_def write_stream_opened split: sum.splits option.splits)

lemma video_try_fs:
  "fs (snd (video_try E url p w)) =
     (case video_effect E url p of None \<Rightarrow> fs w | Some b \<Rightarrow> (fs w)(p \<mapsto> b))"
  unfolding video_try_def video_effect_def
  by (subst requests_get_eq, subst (2) requests_get_eq)
     (simp add: open_wb_def write_stream_opened empty_world_def split: sum.splits option.splits)

lemma video_try_requested: "requested (snd (video_try E url p w)) = requested w @ [url]"
  unfolding video_try_def
  by (subst requests_get_eq)
     (simp add: open_wb_def write_stream_opened split: sum.splits option.splits)

lemma video_try_logged:
  "logged (snd (video_try E url p w)) =
     logged w @ (case fst (video_try E url p w) of
                   None \<Rightarrow> [INFO (''Video downloaded successfully and saved to: '' @ p)]
                 | Some e \<Rightarrow> [])"
  unfolding video_try_def
  by (subst requests_get_eq, subst (2) requests_get_eq)
     (simp add: open_wb_def write_stream_opened split: sum.splits option.splits)


section \<open>The functions of the program\<close>

lemma download_image_fst: "fst (download_image E url h d w) = None"
  by (simp add: download_image_def Let_def split: prod.splits option.splits)

lemma download_image_fs:
  "fs (snd (download_image E url h d w)) =
     gated (path_join d (py_str h @ ''.jpg''),
            image_effect E url (path_join d (py_str h @ ''.jpg''))) (fs w)"
proof -
  let ?p = "path_join d (py_str h @ ''.jpg'')"
  obtain r w1 where t: "image_try E url ?p w = (r, w1)" by (cases "image_try E url ?p w")
  with image_try_fs [of E url ?p w] have "fs w1 =
      (case image_effect E url ?p of None \<Rightarrow> fs w | Some b \<Rightarrow> (fs w)(?p \<mapsto> b))" by simp
  with t show ?thesis
    by (simp add: download_image_def Let_def path_exists_def split: option.splits)
qed

lemma download_image_requested:
  "requested (snd (download_image E url h d w)) =
     requested w @ (if path_exists w (path_join d (py_str h @ ''.jpg'')) then [] else [url])"
proof -
  let ?p = "path_join d (py_str h @ ''.jpg'')"
  obtain r w1 where t: "image_try E url ?p w = (r, w1)" by (cases "image_try E url ?p w")
  with image_try_requested [of E url ?p w] have "requested w1 = requested w @ [url]" by simp
  with t show ?thesis
    by (simp add: download_image_def Let_def split: option.splits)
qed

lemma download_image_logged:
  "logged (snd (download_image E url h d w)) =
     logged w @
     [if path_exists w (path_join d (py_str h @ ''.jpg''))
      then INFO (''Image already exists: '' @ path_join d (py_str h @ ''.jpg'')
                   @ ''. Skipping download.'')
      else case fst (image_try E url (path_join d (py_str h @ ''.jpg'')) empty_world) of
             None \<Rightarrow> INFO (''Downloaded and saved image to: '' @ path_join d (py_str h @ ''.jpg''))
           | Some e \<Rightarrow> ERROR (case e of HTTPError s \<Rightarrow> ''HTTP error occurred: ''
                                | _ \<Rightarrow> ''An error occurred: '') e]"
proof -
  let ?p = "path_join d (py_str h @ ''.jpg'')"
  obtain r w1 where t: "image_try E url ?p w = (r, w1)" by (cases "image_try E url ?p w")
  with image_try_logged [of E url ?p w] have "logged w1 = logged w @
     (case r of None \<Rightarrow> [INFO (''Downloaded and saved image to: '' @ ?p)] | Some e \<Rightarrow> [])"
    by simp
  moreover have "fst (image_try E url ?p empty_world) = r"
    using t image_try_fst [of E url ?p empty_world w] by simp
  ultimately show ?thesis
    using t by (simp add: download_image_def Let_def split: option.splits)
qed

lemma download_video_fst: "fst (download_video E url h d w) = None"
  by (simp add: download_video_def Let_def split: prod.splits option.splits)

lemma download_video_fs:
  "fs (snd (download_video E url h d w)) =
     gated (path_join d (py_str h @ ''.mp4''),
            video_effect E url (path_join d (py_str h @ ''.mp4''))) (fs w)"
proof -
  let ?p = "path_join d (py_str h @ ''.mp4'')"
  obtain r w1 where t: "video_try E url ?p w = (r, w1)" by (cases "video_try E url ?p w")
  with video_try_fs [of E url ?p w] have "fs w1 =
      (case video_effect E url ?p of None \<Rightarrow> fs w | Some b \<Rightarrow> (fs w)(?p \<mapsto> b))" by simp
  with t show ?thesis
    by (simp add: download_video_def Let_def path_exists_def split: option.splits)
qed

lemma download_video_requested:
  "requested (snd (download_video E url h d w)) =
     requested w @ (if path_exists w (path_join d (py_str h @ ''.mp4'')) then [] else [url])"
proof -
  let ?p = "path_join d (py_str h @ ''.mp4'')"
  obtain r w1 where t: "video_try E url ?p w = (r, w1)" by (cases "video_try E url ?p w")
  with video_try_requested [of E url ?p w] have "requested w1 = requested w @ [url]" by simp
  with t show ?thesis
    by (simp add: download_video_def Let_def split: option.splits)
qed

lemma download_video_logged:
  "logged (snd (download_video E url h d w)) =
     logged w @
     [if path_exists w (path_join d (py_str h @ ''.mp4''))
      then INFO (''Video already exists: '' @ path_join d (py_str h @ ''.mp4'')
                   @ ''. Skipping download.'')
      else case fst (video_try E url (path_join d (py_str h @ ''.mp4'')) empty_world) of
             None \<Rightarrow> INFO (''Video downloaded successfully and saved to: ''
                            @ path_join d (py_str h @ ''.mp4''))
           | Some e \<Rightarrow> ERROR (case e of HTTPError s \<Rightarrow> ''HTTP error occurred: ''
                                | _ \<Rightarrow> ''An error occurred: '') e]"
proof -
  let ?p = "path_join d (py_str h @ ''.mp4'')"
  obtain r w1 where t: "video_try E url ?p w = (r, w1)" by (cases "video_try E url ?p w")
  with video_try_logged [of E url ?p w] have "logged w1 = logged w @
     (case r of None \<Rightarrow> [INFO (''Video downloaded successfully and saved to: '' @ ?p)]
      | Some e \<Rightarrow> [])"
    by simp
  moreover have "fst (video_try E url ?p empty_world) = r"
    using t video_try_fst [of E url ?p empty_world w] by simp
  ultimately show ?thesis
    using t by (simp add: download_video_def Let_def split: option.splits)
qed

lemma extract_eq:
  "extract_highest_quality_video_url E api w =
     (fst (extract_highest_quality_video_url E api empty_world),
      w\<lparr>requested := requested w @ [Str api]\<rparr>)"
  unfolding extract_highest_quality_video_url_def
  by (subst requests_get_eq, subst (2) requests_get_eq)
     (simp add: Let_def split: sum.splits list.splits)

lemma videos_row_fst: "fst (videos_row E d row w) = None"
  by (simp add: videos_row_def Let_def download_video_fst split: prod.splits sum.splits)

lemma videos_row_fs: "fs (snd (videos_row E d row w)) = gated (video_step E d row) (fs w)"
  unfolding videos_row_def video_step_def video_path_def landing_url_def Let_def
  by (subst extract_eq)
     (simp add: download_video_fs path_exists_def split: sum.splits)

lemma videos_row_requested:
  "requested (snd (videos_row E d row w)) =
     requested w @
     (if path_exists w (video_path d row) then []
      else Str (landing_url row) #
           (case fst (extract_highest_quality_video_url E (landing_url row) empty_world) of
              Inl err \<Rightarrow> [] | Inr hq \<Rightarrow> [hq]))"
  unfolding videos_row_def video_path_def landing_url_def Let_def
  by (subst extract_eq)
     (simp add: download_video_requested path_exists_def split: sum.splits)

lemma videos_row_logged:
  "logged (snd (videos_row E d row w)) =
     logged w @
     [if path_exists w (video_path d row)
      then INFO (''Video already exists: '' @ video_path d row @ ''. Skipping download.'')
      else case fst (extract_highest_quality_video_url E (landing_url row) empty_world) of
             Inl err \<Rightarrow> ERROR ''An error occurred while extracting video URL: '' err
           | Inr hq \<Rightarrow>
               (case fst (video_try E hq (video_path d row) empty_world) of
                  None \<Rightarrow> INFO (''Video downloaded successfully and saved to: ''
                                 @ video_path d row)
                | Some e \<Rightarrow> ERROR (case e of HTTPError s \<Rightarrow> ''HTTP error occurred: ''
                                     | _ \<Rightarrow> ''An error occurred: '') e)]"
  unfolding videos_row_def video_path_def landing_url_def Let_def
  by (subst extract_eq)
     (simp add: download_video_logged path_exists_def split: sum.splits)


section \<open>Runs over the rows\<close>

lemma gated_dom_mono: "dom m \<subseteq> dom (gated s m)"
  by (cases s) (auto split: option.splits)

lemma gated_fold_dom_mono: "dom m \<subseteq> dom (foldl (\<lambda>m s. gated s m) m G)"
proof (induction G arbitrary: m)
  case Nil
  show ?case by simp
next
  case (Cons s G)
  from gated_dom_mono [of m s] Cons.IH [of "gated s m"] show ?case by auto
qed

lemma gated_fold_preserves: "m p = Some b \<Longrightarrow> foldl (\<lambda>m s. gated s m) m G p = Some b"
proof (induction G arbitrary: m)
  case Nil
  then show ?case by simp
next
  case (Cons s G)
  from Cons.prems have "gated s m p = Some b"
    by (cases s) (auto split: option.splits)
  then show ?case by (simp add: Cons.IH)
qed

lemma gated_fold_done:
  "(p, eff) \<in> set G \<Longrightarrow> p \<in> dom (foldl (\<lambda>m s. gated s m) m G) \<or> eff = None"
proof (induction G arbitrary: m)
  case Nil
  then show ?case by simp
next
  case (Cons s G)
  show ?case
  proof (cases "s = (p, eff)")
    case True
    then have "p \<in> dom (gated s m) \<or> eff = None"
      by (auto split: option.splits)
    with gated_fold_dom_mono [of "gated s m" G] show ?thesis by auto
  next
    case False
    with Cons.prems have "(p, eff) \<in> set G" by simp
    from Cons.IH [OF this, of "gated s m"] show ?thesis by simp
  qed
qed

lemma gated_fold_fixed:
  "(\<And>p eff. (p, eff) \<in> set G \<Longrightarrow> p \<in> dom m \<or> eff = None) \<Longrightarrow>
   foldl (\<lambda>m s. gated s m) m G = m"
proof (induction G)
  case Nil
  show ?case by simp
next
  case (Cons s G)
  obtain p eff where s: "s = (p, eff)" by (cases s)
  with Cons.prems [of p eff] have "gated s m = m" by auto
  with Cons show ?case by simp
qed

lemma gated_fold_idem:
  "foldl (\<lambda>m s. gated s m) (foldl (\<lambda>m s. gated s m) m G) G = foldl (\<lambda>m s. gated s m) m G"
  by (rule gated_fold_fixed) (rule gated_fold_done)

lemma gated_fold_new:
  "p \<in> dom (foldl (\<lambda>m s. gated s m) m G) \<Longrightarrow> p \<in> dom m \<or> p \<in> fst ` set G"
proof (induction G arbitrary: m)
  case Nil
  then show ?case by simp
next
  case (Cons s G)
  from Cons.IH [of "gated s m"] Cons.prems
  have "p \<in> dom (gated s m) \<or> p \<in> fst ` set G" by simp
  moreover have "p \<in> dom (gated s m) \<Longrightarrow> p \<in> dom m \<or> p = fst s"
    by (cases s) (auto split: option.splits if_splits)
  ultimately show ?case by auto
qed

lemma run_tasks_Cons:
  "run_tasks (t # ts) w =
     ((case fst (t w) of None \<Rightarrow> fst (run_tasks ts (snd (t w))) | Some e \<Rightarrow> Some e),
      snd (run_tasks ts (snd (t w))))"
  by (cases "t w"; cases "run_tasks ts (snd (t w))") (auto split: option.splits)

lemma run_tasks_snd: "snd (run_tasks ts w) = foldl (\<lambda>w t. snd (t w)) w ts"
  by (induction ts arbitrary: w) (simp_all add: run_tasks_Cons del: run_tasks.simps(2))

lemma run_tasks_fst:
  "(\<And>t w. t \<in> set ts \<Longrightarrow> fst (t w) = None) \<Longrightarrow> fst (run_tasks ts w) = None"
proof (induction ts arbitrary: w)
  case Nil
  show ?case by simp
next
  case (Cons t ts)
  have "fst (t w) = None" by (simp add: Cons.prems)
  moreover have "fst (run_tasks ts (snd (t w))) = None"
    by (rule Cons.IH) (simp add: Cons.prems)
  ultimately show ?case
    by (simp add: run_tasks_Cons del: run_tasks.simps(2))
qed

lemma run_tasks_fs:
  assumes "\<And>x w. fs (snd (f x w)) = gated (g x) (fs w)"
  shows "fs (snd (run_tasks (map f xs) w)) = foldl (\<lambda>m s. gated s m) (fs w) (map g xs)"
  unfolding run_tasks_snd
  by (induction xs arbitrary: w) (simp_all add: assms)

lemma download_images_fs:
  "fs (snd (download_images E df d w)) =
     foldl (\<lambda>m s. gated s m) (fs w) (map (image_step E d) (unique_rows image_url df))"
  unfolding download_images_def Let_def
  by (rule run_tasks_fs) (simp add: download_image_fs image_step_def image_path_def)

lemma download_videos_fs:
  "fs (snd (download_videos E df d w)) =
     foldl (\<lambda>m s. gated s m) (fs w) (map (video_step E d) (unique_rows video_url df))"
  unfolding download_videos_def Let_def
  by (rule run_tasks_fs) (simp add: videos_row_fs)

lemma download_images_fst: "fst (download_images E df d w) = None"
  unfolding download_images_def Let_def
  by (rule run_tasks_fst) (auto simp: download_image_fst)

lemma download_videos_fst: "fst (download_videos E df d w) = None"
  unfolding download_videos_def Let_def
  by (rule run_tasks_fst) (auto simp: videos_row_fst)

lemma run_media_collection_fst: "fst (run_media_collection E images videos w) = None"
proof -
  have "fst (run_tasks [download_images E images image_save_dir,
                        download_videos E videos video_save_dir] w) = None"
    by (rule run_tasks_fst) (auto simp: download_images_fst download_videos_fst)
  then show ?thesis
    by (simp add: run_media_collection_def split: prod.splits option.splits)
qed

lemma run_media_collection_fs:
  "fs (snd (run_media_collection E images videos w)) =
     foldl (\<lambda>m s. gated s m) (fs w)
       (map (image_step E image_save_dir) (unique_rows image_url images) @
        map (video_step E video_save_dir) (unique_rows video_url videos))"
proof -
  have "fs (snd (run_media_collection E images videos w)) =
        fs (snd (download_videos E videos video_save_dir
                  (snd (download_images E images image_save_dir w))))"
    by (simp add: run_media_collection_def split: prod.splits option.splits)
  then show ?thesis
    by (simp add: download_videos_fs download_images_fs)
qed

lemma run_tasks_map_Cons:
  "snd (run_tasks (map f (x # xs)) w) = snd (run_tasks (map f xs) (snd (f x w)))"
  by (simp add: run_tasks_Cons del: run_tasks.simps(2))

lemma run_tasks_requested:
  assumes req: "\<And>x w. \<exists>new. requested (snd (f x w)) = requested w @ new
                  \<and> (path_exists w (pth x) \<longrightarrow> new = []) \<and> (\<forall>v \<in> set new. R x v)"
    and mono: "\<And>x w. dom (fs w) \<subseteq> dom (fs (snd (f x w)))"
  shows "\<exists>new. requested (snd (run_tasks (map f xs) w)) = requested w @ new
           \<and> (\<forall>v \<in> set new. \<exists>x \<in> set xs. R x v \<and> \<not> path_exists w (pth x))"
proof (induction xs arbitrary: w)
  case Nil
  show ?case by simp
next
  case (Cons x xs)
  let ?w1 = "snd (f x w)"
  from req [of x w] obtain new1 where
    n1: "requested ?w1 = requested w @ new1" "path_exists w (pth x) \<longrightarrow> new1 = []"
      "\<forall>v \<in> set new1. R x v"
    by blast
  from Cons.IH [of ?w1] obtain new2 where
    n2: "requested (snd (run_tasks (map f xs) ?w1)) = requested ?w1 @ new2"
      "\<forall>v \<in> set new2. \<exists>y \<in> set xs. R y v \<and> \<not> path_exists ?w1 (pth y)"
    by blast
  have keep: "\<not> path_exists ?w1 q \<Longrightarrow> \<not> path_exists w q" for q
    using mono [of w x] by (auto simp: path_exists_def)
  have "requested (snd (run_tasks (map f (x # xs)) w)) = requested w @ (new1 @ new2)"
    using n1(1) n2(1) by (simp only: run_tasks_map_Cons append_assoc)
  moreover have "\<forall>v \<in> set (new1 @ new2). \<exists>y \<in> set (x # xs). R y v \<and> \<not> path_exists w (pth y)"
  proof
    fix v assume "v \<in> set (new1 @ new2)"
    then consider "v \<in> set new1" | "v \<in> set new2" by auto
    then show "\<exists>y \<in> set (x # xs). R y v \<and> \<not> path_exists w (pth y)"
    proof cases
      case 1
      with n1(2,3) have "R x v \<and> \<not> path_exists w (pth x)" by auto
      then show ?thesis by auto
    next
      case 2
      with n2(2) obtain y where "y \<in> set xs" "R y v" "\<not> path_exists ?w1 (pth y)" by blast
      with keep show ?thesis by auto
    qed
  qed
  ultimately show ?case by blast
qed

lemma run_tasks_logged:
  assumes "\<And>x w. \<exists>e. logged (snd (f x w)) = logged w @ [e] \<and> Q x e"
  shows "\<exists>es. logged (snd (run_tasks (map f xs) w)) = logged w @ es \<and> list_all2 Q xs es"
proof (induction xs arbitrary: w)
  case Nil
  show ?case by simp
next
  case (Cons x xs)
  let ?w1 = "snd (f x w)"
  from assms [of x w] obtain e where e: "logged ?w1 = logged w @ [e]" "Q x e" by blast
  from Cons.IH [of ?w1] obtain es where
    es: "logged (snd (run_tasks (map f xs) ?w1)) = logged ?w1 @ es" "list_all2 Q xs es"
    by blast
  have "logged (snd (run_tasks (map f (x # xs)) w)) = logged w @ (e # es)"
    using e(1) es(1) by (simp only: run_tasks_map_Cons) simp
  moreover have "list_all2 Q (x # xs) (e # es)"
    using e(2) es(2) by simp
  ultimately show ?case by blast
qed

lemma download_image_mono: "dom (fs w) \<subseteq> dom (fs (snd (download_image E url h d w)))"
  by (simp only: download_image_fs gated_dom_mono)

lemma videos_row_mono: "dom (fs w) \<subseteq> dom (fs (snd (videos_row E d row w)))"
  by (simp only: videos_row_fs gated_dom_mono)

lemma download_images_requested:
  "\<exists>new. requested (snd (download_images E df d w)) = requested w @ new
     \<and> (\<forall>v \<in> set new. \<exists>row \<in> set (unique_rows image_url df).
            v = image_url row \<and> \<not> path_exists w (image_path d row))"
  unfolding download_images_def Let_def
  by (rule run_tasks_requested [where R = "\<lambda>row v. v = image_url row"])
     (simp_all add: download_image_requested download_image_mono image_path_def)

lemma download_videos_requested:
  "\<exists>new. requested (snd (download_videos E df d w)) = requested w @ new
     \<and> (\<forall>v \<in> set new. \<exists>row \<in> set (unique_rows video_url df).
            (v = Str (landing_url row)
             \<or> fst (extract_highest_quality_video_url E (landing_url row) empty_world) = Inr v)
            \<and> \<not> path_exists w (video_path d row))"
  unfolding download_videos_def Let_def
  by (rule run_tasks_requested [where R = "\<lambda>row v. v = Str (landing_url row)
             \<or> fst (extract_highest_quality_video_url E (landing_url row) empty_world) = Inr v"])
     (auto simp: videos_row_requested videos_row_mono split: sum.splits)


section \<open>Resolving the video URL\<close>

lemma requests_get_complete:
  "net E u = Inr r \<Longrightarrow> broken r = None \<Longrightarrow>
   requests_get E s (Str u) w = (Inr r, w\<lparr>requested := requested w @ [Str u]\<rparr>)"
  by (simp add: requests_get_def)

lemma filter_eq_Cons_first:
  "filter P xs = a # rest \<Longrightarrow>
   \<exists>before after. xs = before @ a # after \<and> P a \<and> (\<forall>t \<in> set before. \<not> P t)"
  by (auto simp: filter_eq_Cons_iff)

text \<open>
  C6. When the first \<^verbatim>\<open>div\<close> of class \<^verbatim>\<open>origin-top-right\<close> of the landing page holds an anchor,
  \<^verbatim>\<open>extract_highest_quality_video_url\<close> returns \<^verbatim>\<open>get("href")\<close> of the first anchor below that
  \<^verbatim>\<open>div\<close>: no tag before the \<^verbatim>\<open>div\<close> in document order is such a \<^verbatim>\<open>div\<close>, no tag before
  the anchor among the tags below the \<^verbatim>\<open>div\<close> is an anchor, and when the anchor has an
  \<^verbatim>\<open>href\<close> the result is its value. For a container with the anchors href1 and href2 the
  result is href1. The status of the page is not looked at.
\<close>

theorem first_anchor_of_first_container:
  assumes "net E api_url = Inr r" and "broken r = None"
    and "find_all (html_parser E (payload r)) ''div'' (Some ''origin-top-right'')
           = download_button # others"
    and "find_all (tag_contents download_button) ''a'' None = first_button # rest"
  shows "extract_highest_quality_video_url E api_url w =
           (Inr (tag_get first_button ''href''), w\<lparr>requested := requested w @ [Str api_url]\<rparr>)
         \<and> (\<exists>before after.
               descendants (html_parser E (payload r)) = before @ download_button # after
               \<and> has_name ''div'' download_button \<and> has_class ''origin-top-right'' download_button
               \<and> (\<forall>t \<in> set before. \<not> (has_name ''div'' t \<and> has_class ''origin-top-right'' t)))
         \<and> (\<exists>before after.
               descendants (tag_contents download_button) = before @ first_button # after
               \<and> has_name ''a'' first_button
               \<and> (\<forall>t \<in> set before. \<not> has_name ''a'' t))
         \<and> (\<forall>nm attrs kids v. first_button = Tag nm attrs kids \<and> map_of attrs ''href'' = Some v \<longrightarrow>
               fst (extract_highest_quality_video_url E api_url w) = Inr (Str v))"
proof -
  have run: "extract_highest_quality_video_url E api_url w =
           (Inr (tag_get first_button ''href''), w\<lparr>requested := requested w @ [Str api_url]\<rparr>)"
    using assms
    by (simp add: extract_highest_quality_video_url_def requests_get_complete)
  have c: "\<exists>before after.
               descendants (html_parser E (payload r)) = before @ download_button # after
               \<and> has_name ''div'' download_button \<and> has_class ''origin-top-right'' download_button
               \<and> (\<forall>t \<in> set before. \<not> (has_name ''div'' t \<and> has_class ''origin-top-right'' t))"
    using filter_eq_Cons_first [OF assms(3) [unfolded find_all_def]] by simp
  have a: "\<exists>before after.
               descendants (tag_contents download_button) = before @ first_button # after
               \<and> has_name ''a'' first_button
               \<and> (\<forall>t \<in> set before. \<not> has_name ''a'' t)"
    using filter_eq_Cons_first [OF assms(4) [unfolded find_all_def]] by simp
  have h: "\<forall>nm attrs kids v. first_button = Tag nm attrs kids \<and> map_of attrs ''href'' = Some v \<longrightarrow>
               fst (extract_highest_quality_video_url E api_url w) = Inr (Str v)"
    using run by auto
  from run c a h show ?thesis by blast
qed

theorem first_anchor_of_first_container_witness:
  "fst (extract_highest_quality_video_url
     \<lparr>net = (\<lambda>u. Inr \<lparr>status_code = 200, headers = [], pieces = [], broken = None\<rparr>),
      html_parser = (\<lambda>b.
        [Tag ''html'' []
          [Tag ''body'' []
            [Tag ''div'' [(''class'', ''origin-top-right absolute'')]
              [NavigableString ''Download'',
               Tag ''ul'' []
                [Tag ''li'' [] [Tag ''a'' [(''href'', ''href1'')] [NavigableString ''1280x720'']],
                 Tag ''li'' [] [Tag ''a'' [(''href'', ''href2'')] [NavigableString ''640x360'']]]]]]]),
      disk = (\<lambda>p. None)\<rparr>
     ''https://twitsave.com/info?url=https://x.com/i/status/1'' empty_world) = Inr (Str ''href1'')"
  using first_anchor_of_first_container [of
     "\<lparr>net = (\<lambda>u. Inr \<lparr>status_code = 200, headers = [], pieces = [], broken = None\<rparr>),
      html_parser = (\<lambda>b.
        [Tag ''html'' []
          [Tag ''body'' []
            [Tag ''div'' [(''class'', ''origin-top-right absolute'')]
              [NavigableString ''Download'',
               Tag ''ul'' []
                [Tag ''li'' [] [Tag ''a'' [(''href'', ''href1'')] [NavigableString ''1280x720'']],
                 Tag ''li'' [] [Tag ''a'' [(''href'', ''href2'')] [NavigableString ''640x360'']]]]]]]),
      disk = (\<lambda>p. None)\<rparr>"
     "''https://twitsave.com/info?url=https://x.com/i/status/1''"
     "\<lparr>status_code = 200, headers = [], pieces = [], broken = None\<rparr>"
     "Tag ''div'' [(''class'', ''origin-top-right absolute'')]
              [NavigableString ''Download'',
               Tag ''ul'' []
                [Tag ''li'' [] [Tag ''a'' [(''href'', ''href1'')] [NavigableString ''1280x720'']],
                 Tag ''li'' [] [Tag ''a'' [(''href'', ''href2'')] [NavigableString ''640x360'']]]]"
     "[]"
     "Tag ''a'' [(''href'', ''href1'')] [NavigableString ''1280x720'']"
     "[Tag ''a'' [(''href'', ''href2'')] [NavigableString ''640x360'']]"
     empty_world]
  by (simp add: find_all_def descendants_def is_space_def)

text \<open>
  A page without the \<^verbatim>\<open>div\<close>: the function is left by Python's \<^verbatim>\<open>IndexError\<close>, the exception
  of the index \<^verbatim>\<open>[0]\<close>. The program has no error of its own for a missing container.
\<close>

theorem missing_container_counterexample:
  "fst (extract_highest_quality_video_url
     \<lparr>net = (\<lambda>u. Inr \<lparr>status_code = 200, headers = [], pieces = [], broken = None\<rparr>),
      html_parser = (\<lambda>b. [Tag ''html'' [] [Tag ''body'' [] [Tag ''p'' [] [NavigableString ''Sorry'']]]]),
      disk = (\<lambda>p. None)\<rparr>
     ''https://twitsave.com/info?url=https://x.com/i/status/1'' empty_world) = Inl IndexError"
  by (simp add: extract_highest_quality_video_url_def requests_get_def find_all_def descendants_def)

text \<open>
  C2, as the code has it. When the landing page has no \<^verbatim>\<open>div\<close> of class
  \<^verbatim>\<open>origin-top-right\<close>, or the first one holds no anchor,
  \<^verbatim>\<open>extract_highest_quality_video_url\<close> raises \<^verbatim>\<open>IndexError\<close> and returns nothing. In
  \<^verbatim>\<open>download_videos\<close> the handler \<^verbatim>\<open>except Exception\<close> catches it: the error is logged as one
  that occurred while extracting the video URL, nothing is downloaded for the row and no
  exception leaves the loop.
\<close>

theorem missing_container_or_anchor:
  assumes "net E (landing_url row) = Inr r" and "broken r = None"
    and "find_all (html_parser E (payload r)) ''div'' (Some ''origin-top-right'') = []
         \<or> (\<exists>download_button others.
               find_all (html_parser E (payload r)) ''div'' (Some ''origin-top-right'')
                 = download_button # others
               \<and> find_all (tag_contents download_button) ''a'' None = [])"
  shows "extract_highest_quality_video_url E (landing_url row) w =
           (Inl IndexError, w\<lparr>requested := requested w @ [Str (landing_url row)]\<rparr>)
         \<and> (\<not> path_exists w (video_path d row) \<longrightarrow>
              videos_row E d row w =
                (None, logging_error ''An error occurred while extracting video URL: '' IndexError
                         (w\<lparr>requested := requested w @ [Str (landing_url row)]\<rparr>)))"
proof -
  have run: "extract_highest_quality_video_url E (landing_url row) w =
           (Inl IndexError, w\<lparr>requested := requested w @ [Str (landing_url row)]\<rparr>)" for w
    using assms
    by (auto simp: extract_highest_quality_video_url_def requests_get_complete)
  have "videos_row E d row w =
          (None, logging_error ''An error occurred while extracting video URL: '' IndexError
                   (w\<lparr>requested := requested w @ [Str (landing_url row)]\<rparr>))"
    if "\<not> path_exists w (video_path d row)"
    using that run [of w]
    by (simp add: videos_row_def Let_def video_path_def landing_url_def)
  with run show ?thesis by blast
qed

theorem missing_container_or_anchor_witness:
  "videos_row
     \<lparr>net = (\<lambda>u. Inr \<lparr>status_code = 200, headers = [], pieces = [], broken = None\<rparr>),
      html_parser = (\<lambda>b. [Tag ''html'' [] [Tag ''div'' [(''class'', ''origin-top-right'')]
                                              [Tag ''span'' [] []]]]),
      disk = (\<lambda>p. None)\<rparr>
     ''videos'' \<lparr>video_url = Str ''https://x.com/i/status/1''\<rparr> empty_world
   = (None, \<lparr>fs = Map.empty,
             logged = [ERROR ''An error occurred while extracting video URL: '' IndexError],
             tqdm = [],
             requested = [Str ''https://twitsave.com/info?url=https://x.com/i/status/1'']\<rparr>)"
  using missing_container_or_anchor [of
     "\<lparr>net = (\<lambda>u. Inr \<lparr>status_code = 200, headers = [], pieces = [], broken = None\<rparr>),
      html_parser = (\<lambda>b. [Tag ''html'' [] [Tag ''div'' [(''class'', ''origin-top-right'')]
                                              [Tag ''span'' [] []]]]),
      disk = (\<lambda>p. None)\<rparr>"
     "\<lparr>video_url = Str ''https://x.com/i/status/1''\<rparr>"
     "\<lparr>status_code = 200, headers = [], pieces = [], broken = None\<rparr>"
     empty_world "''videos''"]
  by (simp add: find_all_def descendants_def is_space_def empty_world_def path_exists_def
        logging_error_def landing_url_def)

text \<open>
  C10. When the first anchor of the container has no \<^verbatim>\<open>href\<close>,
  \<^verbatim>\<open>extract_highest_quality_video_url\<close> returns None, neither a URL nor an exception, and
  \<^verbatim>\<open>download_videos\<close> passes None to \<^verbatim>\<open>download_video\<close> as the URL: \<^verbatim>\<open>requests.get(None)\<close> is
  called, raises \<^verbatim>\<open>MissingSchema\<close>, and the handler of \<^verbatim>\<open>download_video\<close> logs it. No file is
  written.
\<close>

theorem anchor_without_href:
  assumes "net E (landing_url row) = Inr r" and "broken r = None"
    and "find_all (html_parser E (payload r)) ''div'' (Some ''origin-top-right'')
           = download_button # others"
    and "find_all (tag_contents download_button) ''a'' None = Tag nm attrs kids # rest"
    and "map_of attrs ''href'' = None"
    and "\<not> path_exists w (video_path d row)"
  shows "extract_highest_quality_video_url E (landing_url row) w =
           (Inr PyNone, w\<lparr>requested := requested w @ [Str (landing_url row)]\<rparr>)
         \<and> videos_row E d row w =
             download_video E PyNone (video_hash (video_url row)) d
               (w\<lparr>requested := requested w @ [Str (landing_url row)]\<rparr>)
         \<and> requested (snd (videos_row E d row w)) = requested w @ [Str (landing_url row), PyNone]
         \<and> logged (snd (videos_row E d row w)) =
             logged w @ [ERROR ''An error occurred: '' (RequestException MissingSchema)]
         \<and> fs (snd (videos_row E d row w)) = fs w"
proof -
  let ?w1 = "w\<lparr>requested := requested w @ [Str (landing_url row)]\<rparr>"
  have run: "extract_highest_quality_video_url E (landing_url row) w = (Inr PyNone, ?w1)"
    using assms by (simp add: extract_highest_quality_video_url_def requests_get_complete)
  have row: "videos_row E d row w = download_video E PyNone (video_hash (video_url row)) d ?w1"
    using assms(6) run by (simp add: videos_row_def Let_def video_path_def landing_url_def)
  have absent: "\<not> path_exists ?w1 (path_join d (py_str (video_hash (video_url row)) @ ''.mp4''))"
    using assms(6) by (simp add: path_exists_def video_path_def)
  have attempt: "video_try E PyNone p ?w1 =
      (Some (RequestException MissingSchema), ?w1\<lparr>requested := requested ?w1 @ [PyNone]\<rparr>)" for p
    by (simp add: video_try_def requests_get_def)
  have dl: "download_video E PyNone (video_hash (video_url row)) d ?w1 =
      (None, logging_error ''An error occurred: '' (RequestException MissingSchema)
               (?w1\<lparr>requested := requested ?w1 @ [PyNone]\<rparr>))"
    using absent by (simp add: download_video_def Let_def attempt)
  from run row dl show ?thesis by simp
qed

theorem anchor_without_href_witness:
  "videos_row
     \<lparr>net = (\<lambda>u. Inr \<lparr>status_code = 200, headers = [], pieces = [], broken = None\<rparr>),
      html_parser = (\<lambda>b. [Tag ''html'' [] [Tag ''div'' [(''class'', ''origin-top-right'')]
                                              [Tag ''a'' [(''name'', ''top'')] [],
                                               Tag ''a'' [(''href'', ''href2'')] []]]]),
      disk = (\<lambda>p. None)\<rparr>
     ''videos'' \<lparr>video_url = Str ''https://x.com/i/status/1''\<rparr> empty_world
   = (None, \<lparr>fs = Map.empty,
             logged = [ERROR ''An error occurred: '' (RequestException MissingSchema)],
             tqdm = [],
             requested = [Str ''https://twitsave.com/info?url=https://x.com/i/status/1'', PyNone]\<rparr>)"
  using anchor_without_href [of
     "\<lparr>net = (\<lambda>u. Inr \<lparr>status_code = 200, headers = [], pieces = [], broken = None\<rparr>),
      html_parser = (\<lambda>b. [Tag ''html'' [] [Tag ''div'' [(''class'', ''origin-top-right'')]
                                              [Tag ''a'' [(''name'', ''top'')] [],
                                               Tag ''a'' [(''href'', ''href2'')] []]]]),
      disk = (\<lambda>p. None)\<rparr>"
     "\<lparr>video_url = Str ''https://x.com/i/status/1''\<rparr>"
     "\<lparr>status_code = 200, headers = [], pieces = [], broken = None\<rparr>"
     "Tag ''div'' [(''class'', ''origin-top-right'')]
                                              [Tag ''a'' [(''name'', ''top'')] [],
                                               Tag ''a'' [(''href'', ''href2'')] []]"
     "[]" "''a''" "[(''name'', ''top'')]" "[]" "[Tag ''a'' [(''href'', ''href2'')] []]"
     empty_world "''videos''"]
  by (simp add: find_all_def descendants_def is_space_def empty_world_def path_exists_def
        logging_error_def landing_url_def download_video_def video_try_def requests_get_def
        Let_def)


section \<open>The image fetcher\<close>

text \<open>
  A response with the status 300 is no 2xx response, \<^verbatim>\<open>raise_for_status\<close> lets it pass, and
  its body is written to the file.
\<close>

theorem image_fetch_status_counterexample:
  "fs (snd (download_image
     \<lparr>net = (\<lambda>u. Inr \<lparr>status_code = 300, headers = [], pieces = [[1, 2, 3]], broken = None\<rparr>),
      html_parser = (\<lambda>b. []), disk = (\<lambda>p. None)\<rparr>
     (Str ''http://host/a.jpg'') (Str ''0a1b'') ''images'' empty_world)) ''images/0a1b.jpg''
   = Some [1, 2, 3]"
  by (simp add: download_image_def image_try_def payload_def requests_get_def raise_for_status_def
        open_wb_def file_write_def path_join_def path_exists_def empty_world_def Let_def)

text \<open>
  C5, as the code has it. Let the file of an image be absent when \<^verbatim>\<open>download_image\<close> is
  called. When \<^verbatim>\<open>requests.get\<close> raises (no response, or a connection that breaks while the
  body is read) or the status is one of 400 to 599, the files are as before and the error
  is logged. When a complete response arrives with any other status and the disk does not
  fail, exactly one file is new: the file of the image, holding the whole body.
\<close>

theorem image_fetch_files:
  assumes "p = path_join d (py_str h @ ''.jpg'')" and "\<not> path_exists w p"
  shows "(\<forall>e. net E u = Inl e \<longrightarrow>
            fs (snd (download_image E (Str u) h d w)) = fs w
            \<and> logged (snd (download_image E (Str u) h d w))
                = logged w @ [ERROR ''An error occurred: '' (RequestException e)])
       \<and> (\<forall>r e. net E u = Inr r \<and> broken r = Some e \<longrightarrow>
            fs (snd (download_image E (Str u) h d w)) = fs w
            \<and> logged (snd (download_image E (Str u) h d w))
                = logged w @ [ERROR ''An error occurred: '' (RequestException e)])
       \<and> (\<forall>r. net E u = Inr r \<and> broken r = None
               \<and> 400 \<le> status_code r \<and> status_code r < 600 \<longrightarrow>
            fs (snd (download_image E (Str u) h d w)) = fs w
            \<and> logged (snd (download_image E (Str u) h d w))
                = logged w @ [ERROR ''HTTP error occurred: '' (HTTPError (status_code r))])
       \<and> (\<forall>r. net E u = Inr r \<and> broken r = None
               \<and> \<not> (400 \<le> status_code r \<and> status_code r < 600) \<and> disk E p = None \<longrightarrow>
            fs (snd (download_image E (Str u) h d w)) = (fs w)(p \<mapsto> payload r)
            \<and> dom (fs (snd (download_image E (Str u) h d w))) = insert p (dom (fs w))
            \<and> logged (snd (download_image E (Str u) h d w))
                = logged w @ [INFO (''Downloaded and saved image to: '' @ p)])"
  using assms
  by (auto simp: download_image_def image_try_def payload_def requests_get_def raise_for_status_def
        open_wb_def file_write_def Let_def path_exists_def)

theorem image_fetch_files_witness:
  "fs (snd (download_image
       \<lparr>net = (\<lambda>u. if u = ''http://host/a.jpg''
                   then Inr \<lparr>status_code = 200, headers = [], pieces = [[7, 8]], broken = None\<rparr>
                   else if u = ''http://host/b.jpg''
                   then Inr \<lparr>status_code = 404, headers = [], pieces = [[9]], broken = None\<rparr>
                   else Inl Timeout),
        html_parser = (\<lambda>b. []), disk = (\<lambda>p. None)\<rparr>
       (Str ''http://host/a.jpg'') (Str ''0a1b'') ''images'' empty_world))
     = [''images/0a1b.jpg'' \<mapsto> [7, 8]]
   \<and> fs (snd (download_image
       \<lparr>net = (\<lambda>u. if u = ''http://host/a.jpg''
                   then Inr \<lparr>status_code = 200, headers = [], pieces = [[7, 8]], broken = None\<rparr>
                   else if u = ''http://host/b.jpg''
                   then Inr \<lparr>status_code = 404, headers = [], pieces = [[9]], broken = None\<rparr>
                   else Inl Timeout),
        html_parser = (\<lambda>b. []), disk = (\<lambda>p. None)\<rparr>
       (Str ''http://host/b.jpg'') (Str ''0a1b'') ''images'' empty_world))
     = Map.empty
   \<and> fs (snd (download_image
       \<lparr>net = (\<lambda>u. if u = ''http://host/a.jpg''
                   then Inr \<lparr>status_code = 200, headers = [], pieces = [[7, 8]], broken = None\<rparr>
                   else if u = ''http://host/b.jpg''
                   then Inr \<lparr>status_code = 404, headers = [], pieces = [[9]], broken = None\<rparr>
                   else Inl Timeout),
        html_parser = (\<lambda>b. []), disk = (\<lambda>p. None)\<rparr>
       (Str ''http://host/c.jpg'') (Str ''0a1b'') ''images'' empty_world))
     = Map.empty"
  using
    image_fetch_files [of "''images/0a1b.jpg''" "''images''" "Str ''0a1b''" empty_world
       "\<lparr>net = (\<lambda>u. if u = ''http://host/a.jpg''
                   then Inr \<lparr>status_code = 200, headers = [], pieces = [[7, 8]], broken = None\<rparr>
                   else if u = ''http://host/b.jpg''
                   then Inr \<lparr>status_code = 404, headers = [], pieces = [[9]], broken = None\<rparr>
                   else Inl Timeout),
        html_parser = (\<lambda>b. []), disk = (\<lambda>p. None)\<rparr>" "''http://host/a.jpg''"]
    image_fetch_files [of "''images/0a1b.jpg''" "''images''" "Str ''0a1b''" empty_world
       "\<lparr>net = (\<lambda>u. if u = ''http://host/a.jpg''
                   then Inr \<lparr>status_code = 200, headers = [], pieces = [[7, 8]], broken = None\<rparr>
                   else if u = ''http://host/b.jpg''
                   then Inr \<lparr>status_code = 404, headers = [], pieces = [[9]], broken = None\<rparr>
                   else Inl Timeout),
        html_parser = (\<lambda>b. []), disk = (\<lambda>p. None)\<rparr>" "''http://host/b.jpg''"]
    image_fetch_files [of "''images/0a1b.jpg''" "''images''" "Str ''0a1b''" empty_world
       "\<lparr>net = (\<lambda>u. if u = ''http://host/a.jpg''
                   then Inr \<lparr>status_code = 200, headers = [], pieces = [[7, 8]], broken = None\<rparr>
                   else if u = ''http://host/b.jpg''
                   then Inr \<lparr>status_code = 404, headers = [], pieces = [[9]], broken = None\<rparr>
                   else Inl Timeout),
        html_parser = (\<lambda>b. []), disk = (\<lambda>p. None)\<rparr>" "''http://host/c.jpg''"]
  by (simp add: path_join_def path_exists_def empty_world_def payload_def)


section \<open>The streaming video fetcher\<close>

lemma chunks_Nil [simp]: "chunks n [] = []"
  by (simp add: chunks.simps)

lemma chunks_Cons: "0 < n \<Longrightarrow> xs \<noteq> [] \<Longrightarrow> chunks n xs = take n xs # chunks n (drop n xs)"
  by (subst chunks.simps) simp

lemma concat_chunks: "0 < n \<Longrightarrow> concat (chunks n xs) = xs"
proof (induction n xs rule: chunks.induct)
  case (1 n xs)
  then show ?case by (cases "xs = []") (simp_all add: chunks_Cons)
qed

lemma sum_length_chunks: "0 < n \<Longrightarrow> sum_list (map length (chunks n xs)) = length xs"
  using concat_chunks [of n xs] length_concat [of "chunks n xs"] by simp

lemma length_in_chunks: "c \<in> set (chunks n xs) \<Longrightarrow> 0 < length c \<and> length c \<le> n"
proof (induction n xs rule: chunks.induct)
  case (1 n xs)
  show ?case
  proof (cases "n = 0 \<or> xs = []")
    case True
    with "1.prems" show ?thesis by (auto simp: chunks.simps)
  next
    case False
    with "1.prems" have "c = take n xs \<or> c \<in> set (chunks n (drop n xs))"
      by (simp add: chunks_Cons)
    with False "1.IH" show ?thesis by auto
  qed
qed

lemma length_in_butlast_chunks: "c \<in> set (butlast (chunks n xs)) \<Longrightarrow> length c = n"
proof (induction n xs rule: chunks.induct)
  case (1 n xs)
  show ?case
  proof (cases "n = 0 \<or> xs = []")
    case True
    with "1.prems" show ?thesis by (auto simp: chunks.simps)
  next
    case False
    show ?thesis
    proof (cases "chunks n (drop n xs) = []")
      case True
      with False "1.prems" show ?thesis by (simp add: chunks_Cons)
    next
      case nonempty: False
      then have "drop n xs \<noteq> []" by auto
      then have "length (take n xs) = n" by simp
      moreover from False nonempty "1.prems"
      have "c = take n xs \<or> c \<in> set (butlast (chunks n (drop n xs)))"
        by (simp add: chunks_Cons)
      ultimately show ?thesis using False "1.IH" by auto
    qed
  qed
qed

lemma length_chunks: "0 < n \<Longrightarrow> length (chunks n xs) = (length xs + n - 1) div n"
proof (induction n xs rule: chunks.induct)
  case (1 n xs)
  show ?case
  proof (cases "xs = []")
    case True
    with "1.prems" show ?thesis by simp
  next
    case False
    with "1.prems" "1.IH" have ih: "length (chunks n (drop n xs)) = (length xs - n + n - 1) div n"
      by simp
    show ?thesis
    proof (cases "length xs \<le> n")
      case True
      with False have "(length xs + n - 1) div n = 1"
        by (intro div_nat_eqI) (cases xs; simp)+
      with True False "1.prems" show ?thesis by (simp add: chunks_Cons)
    next
      case long: False
      have "length xs + n - 1 = (length xs - 1) + n"
        using long by arith
      then have "(length xs + n - 1) div n = ((length xs - 1) + n) div n"
        by (rule arg_cong)
      also have "\<dots> = Suc ((length xs - 1) div n)"
        using "1.prems" by (simp add: div_add_self2)
      also have "length xs - 1 = length xs - n + n - 1"
        using long by arith
      finally have "(length xs + n - 1) div n = Suc (length (chunks n (drop n xs)))"
        unfolding ih .
      moreover have "length (chunks n xs) = Suc (length (chunks n (drop n xs)))"
        using False "1.prems" by (simp add: chunks_Cons)
      ultimately show ?thesis by (simp only:)
    qed
  qed
qed

lemma stream_plain:
  "disk E p = None \<Longrightarrow>
   stream_bytes E p i (map Inr cs) = concat cs \<and> stream_updates E p i (map Inr cs) = map length cs
   \<and> stream_exn E p i (map Inr cs) = None"
  by (induction cs arbitrary: i) simp_all

lemma video_try_complete:
  assumes "net E u = Inr r" and "broken r = None" and "raise_for_status r = None"
    and "total_size r = Inr n" and "disk E p = None"
  shows "video_try E (Str u) p w =
    (None,
     w\<lparr>fs := (fs w)(p \<mapsto> payload r),
       logged := logged w @ [INFO (''Video downloaded successfully and saved to: '' @ p)],
       tqdm := tqdm w @ BarOpen n (''Downloading '' @ p)
                 # map BarUpdate (map length (pieces r)) @ [BarClose],
       requested := requested w @ [Str u]\<rparr>)"
  using assms
  by (simp add: video_try_def requests_get_def open_wb_def iter_content_def write_stream_opened
        stream_plain payload_def progress_bar_open_def progress_bar_close_def
        logging_info_def)

lemma download_video_complete:
  assumes "net E u = Inr r" and "broken r = None" and "raise_for_status r = None"
    and "total_size r = Inr n" and "disk E p = None"
    and "p = path_join d (py_str h @ ''.mp4'')" and "\<not> path_exists w p"
  shows "download_video E (Str u) h d w =
    (None,
     w\<lparr>fs := (fs w)(p \<mapsto> payload r),
       logged := logged w @ [INFO (''Video downloaded successfully and saved to: '' @ p)],
       tqdm := tqdm w @ BarOpen n (''Downloading '' @ p)
                 # map BarUpdate (map length (pieces r)) @ [BarClose],
       requested := requested w @ [Str u]\<rparr>)"
  using assms(6,7) video_try_complete [OF assms(1-5), of w]
  by (simp add: download_video_def Let_def)

lemma total_size_header:
  "total_size \<lparr>status_code = s, headers = [(''Content-Length'', ''204800'')], pieces = b,
               broken = e\<rparr> = Inr 204800"
  by (simp add: total_size_def headers_get_def lower_char_def py_int_def strip_def
        is_int_space_def is_digit_def Let_def)

text \<open>
  Two responses with a body of 3 bytes. The first is compressed: it declares the 23 bytes
  that are sent, and the 3 bytes they decode to arrive in one piece; the file has 3 bytes
  and the updates sum to 3, not to the 23 declared. The second is sent in a chunk of 2
  bytes and a chunk of 1 byte, and declares no length: there are two updates, of 2 and of
  1, though 1024 bytes are asked for.
\<close>

theorem streamed_size_counterexample:
  "total_size \<lparr>status_code = 200,
                 headers = [(''Content-Encoding'', ''gzip''), (''Content-Length'', ''23'')],
                 pieces = [[1, 2, 3]], broken = None\<rparr> = Inr 23
   \<and> download_video
       \<lparr>net = (\<lambda>u. Inr \<lparr>status_code = 200,
                          headers = [(''Content-Encoding'', ''gzip''), (''Content-Length'', ''23'')],
                          pieces = [[1, 2, 3]], broken = None\<rparr>),
        html_parser = (\<lambda>b. []), disk = (\<lambda>p. None)\<rparr>
       (Str ''https://video.host/1.mp4'') (Str ''0a1b'') ''videos'' empty_world
     = (None,
        \<lparr>fs = [''videos/0a1b.mp4'' \<mapsto> [1, 2, 3]],
         logged = [INFO ''Video downloaded successfully and saved to: videos/0a1b.mp4''],
         tqdm = [BarOpen 23 ''Downloading videos/0a1b.mp4'', BarUpdate 3, BarClose],
         requested = [Str ''https://video.host/1.mp4'']\<rparr>)
   \<and> download_video
       \<lparr>net = (\<lambda>u. Inr \<lparr>status_code = 200,
                          headers = [(''Transfer-Encoding'', ''chunked'')],
                          pieces = [[1, 2], [3]], broken = None\<rparr>),
        html_parser = (\<lambda>b. []), disk = (\<lambda>p. None)\<rparr>
       (Str ''https://video.host/1.mp4'') (Str ''0a1b'') ''videos'' empty_world
     = (None,
        \<lparr>fs = [''videos/0a1b.mp4'' \<mapsto> [1, 2, 3]],
         logged = [INFO ''Video downloaded successfully and saved to: videos/0a1b.mp4''],
         tqdm = [BarOpen 0 ''Downloading videos/0a1b.mp4'', BarUpdate 2, BarUpdate 1, BarClose],
         requested = [Str ''https://video.host/1.mp4'']\<rparr>)"
  by (simp add: total_size_def headers_get_def lower_char_def py_int_def strip_def
        is_int_space_def is_digit_def Let_def download_video_def video_try_def
        requests_get_def raise_for_status_def open_wb_def file_write_def iter_content_def
        block_size_def path_join_def path_exists_def empty_world_def
        progress_bar_open_def progress_bar_update_def progress_bar_close_def logging_info_def)

text \<open>
  C7, as the code has it. Let the file of a video be absent, and let a complete response
  arrive whose status \<^verbatim>\<open>raise_for_status\<close> lets pass and whose Content-Length, if it has one, is
  a number; \<open>n\<close> is that number, or 0. Then \<^verbatim>\<open>download_video\<close> makes one GET and asks
  \<^verbatim>\<open>iter_content\<close> for pieces of 1024 bytes; the pieces are as the transfer delivers them.
  The bar is opened with the total \<open>n\<close>, updated once for each piece, with the length of
  that piece, and closed; the file holds the pieces in order, which is the body. So the
  size of the file is the sum of the updates and the length of the body; it is the declared
  \<open>n\<close> when the body has \<open>n\<close> bytes, which the program does not check. When the body
  arrives in pieces of 1024 bytes, the last one shorter if the body is no multiple of 1024
  bytes long, there are as many updates as such pieces: 200 for 204800 bytes.
\<close>

theorem streamed_video_fetch:
  assumes "p = path_join d (py_str h @ ''.mp4'')" and "\<not> path_exists w p"
    and "net E u = Inr r" and "broken r = None" and "raise_for_status r = None"
    and "disk E p = None"
    and "total_size r = Inr n"
  shows "fs (snd (download_video E (Str u) h d w)) = (fs w)(p \<mapsto> concat (pieces r))
    \<and> tqdm (snd (download_video E (Str u) h d w)) =
        tqdm w @ BarOpen n (''Downloading '' @ p)
          # map BarUpdate (map length (pieces r)) @ [BarClose]
    \<and> requested (snd (download_video E (Str u) h d w)) = requested w @ [Str u]
    \<and> logged (snd (download_video E (Str u) h d w)) =
        logged w @ [INFO (''Video downloaded successfully and saved to: '' @ p)]
    \<and> length (the (fs (snd (download_video E (Str u) h d w)) p))
        = sum_list (map length (pieces r))
    \<and> length (the (fs (snd (download_video E (Str u) h d w)) p)) = length (payload r)
    \<and> (\<forall>body. pieces r = chunks 1024 body \<longrightarrow>
          fs (snd (download_video E (Str u) h d w)) p = Some body
          \<and> length (pieces r) = (length body + 1023) div 1024
          \<and> (\<forall>c \<in> set (butlast (pieces r)). length c = 1024)
          \<and> (\<forall>c \<in> set (pieces r). 0 < length c \<and> length c \<le> 1024)
          \<and> (length body = 204800 \<longrightarrow> length (pieces r) = 200))"
proof -
  have served: "fs (snd (download_video E (Str u) h d w)) p = Some body
          \<and> length (pieces r) = (length body + 1023) div 1024
          \<and> (\<forall>c \<in> set (butlast (pieces r)). length c = 1024)
          \<and> (\<forall>c \<in> set (pieces r). 0 < length c \<and> length c \<le> 1024)
          \<and> (length body = 204800 \<longrightarrow> length (pieces r) = 200)"
    if cut: "pieces r = chunks 1024 body" for body
  proof -
    have n: "length (chunks 1024 body) = (length body + 1023) div 1024"
      using length_chunks [of 1024 body] by simp
    have "\<forall>c \<in> set (chunks 1024 body). 0 < length c \<and> length c \<le> 1024"
      using length_in_chunks by blast
    moreover have "\<forall>c \<in> set (butlast (chunks 1024 body)). length c = 1024"
      using length_in_butlast_chunks by blast
    moreover have "length body = 204800 \<longrightarrow> length (chunks 1024 body) = 200"
      using n by simp
    ultimately show ?thesis
      using n cut download_video_complete [OF assms(3,4,5,7,6,1,2)]
      by (simp add: payload_def concat_chunks)
  qed
  from download_video_complete [OF assms(3,4,5,7,6,1,2)]
  have "fs (snd (download_video E (Str u) h d w)) = (fs w)(p \<mapsto> concat (pieces r))
    \<and> tqdm (snd (download_video E (Str u) h d w)) =
        tqdm w @ BarOpen n (''Downloading '' @ p)
          # map BarUpdate (map length (pieces r)) @ [BarClose]
    \<and> requested (snd (download_video E (Str u) h d w)) = requested w @ [Str u]
    \<and> logged (snd (download_video E (Str u) h d w)) =
        logged w @ [INFO (''Video downloaded successfully and saved to: '' @ p)]
    \<and> length (the (fs (snd (download_video E (Str u) h d w)) p))
        = sum_list (map length (pieces r))
    \<and> length (the (fs (snd (download_video E (Str u) h d w)) p)) = length (payload r)"
    by (simp add: payload_def length_concat)
  with served show ?thesis by blast
qed

theorem streamed_video_fetch_witness:
  "length (the (fs (snd (download_video
       \<lparr>net = (\<lambda>u. Inr \<lparr>status_code = 200, headers = [(''Content-Length'', ''204800'')],
                          pieces = chunks 1024 body_204800, broken = None\<rparr>),
        html_parser = (\<lambda>b. []), disk = (\<lambda>p. None)\<rparr>
       (Str ''https://video.host/1.mp4'') (Str ''0a1b'') ''videos'' empty_world))
     ''videos/0a1b.mp4'')) = 204800
   \<and> length (tqdm (snd (download_video
       \<lparr>net = (\<lambda>u. Inr \<lparr>status_code = 200, headers = [(''Content-Length'', ''204800'')],
                          pieces = chunks 1024 body_204800, broken = None\<rparr>),
        html_parser = (\<lambda>b. []), disk = (\<lambda>p. None)\<rparr>
       (Str ''https://video.host/1.mp4'') (Str ''0a1b'') ''videos'' empty_world))) = 202
   \<and> hd (tqdm (snd (download_video
       \<lparr>net = (\<lambda>u. Inr \<lparr>status_code = 200, headers = [(''Content-Length'', ''204800'')],
                          pieces = chunks 1024 body_204800, broken = None\<rparr>),
        html_parser = (\<lambda>b. []), disk = (\<lambda>p. None)\<rparr>
       (Str ''https://video.host/1.mp4'') (Str ''0a1b'') ''videos'' empty_world)))
     = BarOpen 204800 ''Downloading videos/0a1b.mp4''"
proof -
  have len: "length body_204800 = 204800"
    by (simp add: body_204800_def)
  show ?thesis
    using streamed_video_fetch [where p = "''videos/0a1b.mp4''" and d = "''videos''"
       and h = "Str ''0a1b''" and w = empty_world and n = 204800
       and u = "''https://video.host/1.mp4''"
       and r = "\<lparr>status_code = 200, headers = [(''Content-Length'', ''204800'')],
                          pieces = chunks 1024 body_204800, broken = None\<rparr>"
       and E = "\<lparr>net = (\<lambda>u. Inr \<lparr>status_code = 200, headers = [(''Content-Length'', ''204800'')],
                          pieces = chunks 1024 body_204800, broken = None\<rparr>),
        html_parser = (\<lambda>b. []), disk = (\<lambda>p. None)\<rparr>"]
    by (simp add: len total_size_header path_join_def path_exists_def empty_world_def
          raise_for_status_def concat_chunks length_chunks)
qed

text \<open>
  C9. A response without a Content-Length header does not make \<^verbatim>\<open>download_video\<close> fail: the
  total is 0, it goes to the progress bar and nowhere else, and the whole body is read
  piece by piece, as the pieces arrive, and written to the file. For any headers whose
  Content-Length is a number, the same response leaves the same files, log and requests;
  only the total the bar is opened with differs.
\<close>

theorem missing_content_length:
  assumes "p = path_join d (py_str h @ ''.mp4'')" and "\<not> path_exists w p"
    and "net E u = Inr r" and "broken r = None" and "raise_for_status r = None"
    and "disk E p = None"
    and "headers_get (headers r) ''content-length'' = None"
  shows "download_video E (Str u) h d w =
      (None,
       w\<lparr>fs := (fs w)(p \<mapsto> payload r),
         logged := logged w @ [INFO (''Video downloaded successfully and saved to: '' @ p)],
         tqdm := tqdm w @ BarOpen 0 (''Downloading '' @ p)
                   # map BarUpdate (map length (pieces r)) @ [BarClose],
         requested := requested w @ [Str u]\<rparr>)
    \<and> payload r = concat (pieces r)
    \<and> (\<forall>hs n. total_size (r\<lparr>headers := hs\<rparr>) = Inr n \<longrightarrow>
          download_video (E\<lparr>net := (net E)(u := Inr (r\<lparr>headers := hs\<rparr>))\<rparr>) (Str u) h d w =
            (None,
             w\<lparr>fs := (fs w)(p \<mapsto> payload r),
               logged := logged w @ [INFO (''Video downloaded successfully and saved to: '' @ p)],
               tqdm := tqdm w @ BarOpen n (''Downloading '' @ p)
                         # map BarUpdate (map length (pieces r)) @ [BarClose],
               requested := requested w @ [Str u]\<rparr>))"
proof -
  have t0: "total_size r = Inr 0"
    using assms(7) by (simp add: total_size_def)
  have a: "download_video E (Str u) h d w =
      (None,
       w\<lparr>fs := (fs w)(p \<mapsto> payload r),
         logged := logged w @ [INFO (''Video downloaded successfully and saved to: '' @ p)],
         tqdm := tqdm w @ BarOpen 0 (''Downloading '' @ p)
                   # map BarUpdate (map length (pieces r)) @ [BarClose],
         requested := requested w @ [Str u]\<rparr>)"
    by (rule download_video_complete [OF assms(3,4,5) t0 assms(6,1,2)])
  have b: "download_video (E\<lparr>net := (net E)(u := Inr (r\<lparr>headers := hs\<rparr>))\<rparr>) (Str u) h d w =
            (None,
             w\<lparr>fs := (fs w)(p \<mapsto> payload r),
               logged := logged w @ [INFO (''Video downloaded successfully and saved to: '' @ p)],
               tqdm := tqdm w @ BarOpen n (''Downloading '' @ p)
                         # map BarUpdate (map length (pieces r)) @ [BarClose],
               requested := requested w @ [Str u]\<rparr>)"
    if "total_size (r\<lparr>headers := hs\<rparr>) = Inr n" for hs n
  proof -
    have rs: "raise_for_status (r\<lparr>headers := hs\<rparr>) = None"
      using assms(5) by (simp add: raise_for_status_def split: if_splits)
    have nt: "net (E\<lparr>net := (net E)(u := Inr (r\<lparr>headers := hs\<rparr>))\<rparr>) u = Inr (r\<lparr>headers := hs\<rparr>)"
      by simp
    have br: "broken (r\<lparr>headers := hs\<rparr>) = None"
      using assms(4) by simp
    have dk: "disk (E\<lparr>net := (net E)(u := Inr (r\<lparr>headers := hs\<rparr>))\<rparr>) p = None"
      using assms(6) by simp
    from download_video_complete [OF nt br rs that dk assms(1,2)] show ?thesis
      by (simp add: payload_def)
  qed
  from a b show ?thesis
    by (simp add: payload_def)
qed

theorem missing_content_length_witness:
  "download_video
       \<lparr>net = (\<lambda>u. Inr \<lparr>status_code = 200, headers = [(''Transfer-Encoding'', ''chunked'')],
                          pieces = [[1, 2], [3, 4], [5]], broken = None\<rparr>),
        html_parser = (\<lambda>b. []), disk = (\<lambda>p. None)\<rparr>
       (Str ''https://video.host/1.mp4'') (Str ''0a1b'') ''videos'' empty_world
   = (None,
      \<lparr>fs = [''videos/0a1b.mp4'' \<mapsto> [1, 2, 3, 4, 5]],
       logged = [INFO ''Video downloaded successfully and saved to: videos/0a1b.mp4''],
       tqdm = [BarOpen 0 ''Downloading videos/0a1b.mp4'', BarUpdate 2, BarUpdate 2,
               BarUpdate 1, BarClose],
       requested = [Str ''https://video.host/1.mp4'']\<rparr>)"
  using missing_content_length [where p = "''videos/0a1b.mp4''" and d = "''videos''"
       and h = "Str ''0a1b''" and w = empty_world and u = "''https://video.host/1.mp4''"
       and r = "\<lparr>status_code = 200, headers = [(''Transfer-Encoding'', ''chunked'')],
                          pieces = [[1, 2], [3, 4], [5]], broken = None\<rparr>"
       and E = "\<lparr>net = (\<lambda>u. Inr \<lparr>status_code = 200, headers = [(''Transfer-Encoding'', ''chunked'')],
                          pieces = [[1, 2], [3, 4], [5]], broken = None\<rparr>),
        html_parser = (\<lambda>b. []), disk = (\<lambda>p. None)\<rparr>"]
  by (simp add: path_join_def path_exists_def empty_world_def raise_for_status_def
        headers_get_def lower_char_def payload_def)

section \<open>The existence gate\<close>

lemma run_media_collection_snd:
  "snd (run_media_collection E images videos w) =
     logging_info ''Media collection process completed.''
       (snd (download_videos E videos video_save_dir
              (snd (download_images E images image_save_dir w))))"
proof -
  have "run_tasks [download_images E images image_save_dir,
                   download_videos E videos video_save_dir] w =
        (None, snd (download_videos E videos video_save_dir
                     (snd (download_images E images image_save_dir w))))"
    using download_images_fst [of E images image_save_dir w]
      download_videos_fst [of E videos video_save_dir
         "snd (download_images E images image_save_dir w)"]
    by (simp add: run_tasks_Cons del: run_tasks.simps(2))
  then show ?thesis
    by (simp add: run_media_collection_def)
qed

lemma download_images_mono: "dom (fs w) \<subseteq> dom (fs (snd (download_images E df d w)))"
  by (simp only: download_images_fs gated_fold_dom_mono)

lemma run_media_collection_requested:
  "\<exists>new. requested (snd (run_media_collection E images videos w)) = requested w @ new
     \<and> (\<forall>v \<in> set new.
          (\<exists>row \<in> set (unique_rows image_url images).
              v = image_url row \<and> \<not> path_exists w (image_path image_save_dir row))
          \<or> (\<exists>row \<in> set (unique_rows video_url videos).
              (v = Str (landing_url row)
               \<or> fst (extract_highest_quality_video_url E (landing_url row) empty_world) = Inr v)
              \<and> \<not> path_exists w (video_path video_save_dir row)))"
proof -
  let ?w1 = "snd (download_images E images image_save_dir w)"
  from download_images_requested [of E images image_save_dir w] obtain new1 where
    n1: "requested ?w1 = requested w @ new1"
      "\<forall>v \<in> set new1. \<exists>row \<in> set (unique_rows image_url images).
            v = image_url row \<and> \<not> path_exists w (image_path image_save_dir row)"
    by blast
  from download_videos_requested [of E videos video_save_dir ?w1] obtain new2 where
    n2: "requested (snd (download_videos E videos video_save_dir ?w1)) = requested ?w1 @ new2"
      "\<forall>v \<in> set new2. \<exists>row \<in> set (unique_rows video_url videos).
            (v = Str (landing_url row)
             \<or> fst (extract_highest_quality_video_url E (landing_url row) empty_world) = Inr v)
            \<and> \<not> path_exists ?w1 (video_path video_save_dir row)"
    by blast
  have keep: "\<not> path_exists ?w1 q \<Longrightarrow> \<not> path_exists w q" for q
    using download_images_mono [of w E images image_save_dir] by (auto simp: path_exists_def)
  have "requested (snd (run_media_collection E images videos w)) = requested w @ (new1 @ new2)"
    using n1(1) n2(1) by (simp add: run_media_collection_snd)
  moreover have "\<forall>v \<in> set (new1 @ new2).
          (\<exists>row \<in> set (unique_rows image_url images).
              v = image_url row \<and> \<not> path_exists w (image_path image_save_dir row))
          \<or> (\<exists>row \<in> set (unique_rows video_url videos).
              (v = Str (landing_url row)
               \<or> fst (extract_highest_quality_video_url E (landing_url row) empty_world) = Inr v)
              \<and> \<not> path_exists w (video_path video_save_dir row))"
    using n1(2) n2(2) keep by (auto simp del: bex_simps) blast+
  ultimately show ?thesis by blast
qed

lemma gated_fold_map_le: "m \<subseteq>\<^sub>m foldl (\<lambda>m s. gated s m) m G"
  by (auto simp: map_le_def dom_def gated_fold_preserves)

lemma download_images_requested_rows:
  "\<exists>new. requested (snd (download_images E df d w)) = requested w @ new
     \<and> (\<forall>row \<in> set (unique_rows image_url df).
            path_exists w (image_path d row) \<longrightarrow> image_url row \<notin> set new)"
proof -
  from download_images_requested [of E df d w] obtain new where
    n: "requested (snd (download_images E df d w)) = requested w @ new"
      "\<forall>v \<in> set new. \<exists>row \<in> set (unique_rows image_url df).
            v = image_url row \<and> \<not> path_exists w (image_path d row)"
    by blast
  have "image_url row \<notin> set new"
    if "row \<in> set (unique_rows image_url df)" and "path_exists w (image_path d row)" for row
  proof
    assume "image_url row \<in> set new"
    with n(2) obtain row' where r: "row' \<in> set (unique_rows image_url df)"
      "image_url row = image_url row'" "\<not> path_exists w (image_path d row')"
      by blast
    from unique_rows_distinct [of image_url df] have "inj_on image_url (set (unique_rows image_url df))"
      by (simp add: distinct_map)
    with that(1) r(1,2) have "row = row'" by (auto dest: inj_onD)
    with that(2) r(3) show False by simp
  qed
  with n(1) show ?thesis by blast
qed

text \<open>
  C4. A file that exists is a gate: \<^verbatim>\<open>download_image\<close>, \<^verbatim>\<open>download_video\<close> and the loop of
  \<^verbatim>\<open>download_videos\<close> then call \<^verbatim>\<open>requests.get\<close> not at all and leave the files as they are. In
  a whole run, every call of \<^verbatim>\<open>requests.get\<close> is made for a row whose file did not exist
  before the run: it asks for the URL of such an image, for the landing page of such a
  video, or for the URL that this landing page gave; and \<^verbatim>\<open>download_images\<close> never asks for
  the URL of an image whose file existed before. A run keeps every file that existed with
  its content; and a second run, in the same environment (the same answers of the network
  and of the disk) and on the files that the first one left, leaves the same files.
\<close>

theorem existence_gate_idempotent:
  "(path_exists w (path_join d (py_str h @ ''.jpg'')) \<longrightarrow>
      fs (snd (download_image E url h d w)) = fs w
      \<and> requested (snd (download_image E url h d w)) = requested w)
   \<and> (path_exists w (path_join d (py_str h @ ''.mp4'')) \<longrightarrow>
      fs (snd (download_video E url h d w)) = fs w
      \<and> requested (snd (download_video E url h d w)) = requested w)
   \<and> (path_exists w (video_path d row) \<longrightarrow>
      fs (snd (videos_row E d row w)) = fs w
      \<and> requested (snd (videos_row E d row w)) = requested w)
   \<and> (\<exists>new. requested (snd (run_media_collection E images videos w)) = requested w @ new
        \<and> (\<forall>v \<in> set new.
             (\<exists>row \<in> set (unique_rows image_url images).
                 v = image_url row \<and> \<not> path_exists w (image_path image_save_dir row))
             \<or> (\<exists>row \<in> set (unique_rows video_url videos).
                 (v = Str (landing_url row)
                  \<or> fst (extract_highest_quality_video_url E (landing_url row) empty_world) = Inr v)
                 \<and> \<not> path_exists w (video_path video_save_dir row))))
   \<and> (\<exists>new. requested (snd (download_images E images d w)) = requested w @ new
        \<and> (\<forall>row \<in> set (unique_rows image_url images).
               path_exists w (image_path d row) \<longrightarrow> image_url row \<notin> set new))
   \<and> fs w \<subseteq>\<^sub>m fs (snd (run_media_collection E images videos w))
   \<and> fs (snd (run_media_collection E images videos
              (snd (run_media_collection E images videos w))))
       = fs (snd (run_media_collection E images videos w))"
proof -
  have a: "path_exists w (path_join d (py_str h @ ''.jpg'')) \<longrightarrow>
      fs (snd (download_image E url h d w)) = fs w
      \<and> requested (snd (download_image E url h d w)) = requested w"
    by (simp add: download_image_fs download_image_requested path_exists_def)
  have b: "path_exists w (path_join d (py_str h @ ''.mp4'')) \<longrightarrow>
      fs (snd (download_video E url h d w)) = fs w
      \<and> requested (snd (download_video E url h d w)) = requested w"
    by (simp add: download_video_fs download_video_requested path_exists_def)
  have c: "path_exists w (video_path d row) \<longrightarrow>
      fs (snd (videos_row E d row w)) = fs w
      \<and> requested (snd (videos_row E d row w)) = requested w"
    by (simp add: videos_row_fs videos_row_requested path_exists_def video_step_def)
  have e: "fs w \<subseteq>\<^sub>m fs (snd (run_media_collection E images videos w))"
    by (simp only: run_media_collection_fs gated_fold_map_le)
  have f: "fs (snd (run_media_collection E images videos
              (snd (run_media_collection E images videos w))))
       = fs (snd (run_media_collection E images videos w))"
    by (simp only: run_media_collection_fs gated_fold_idem)
  from a b c e f run_media_collection_requested [of E images videos w]
    download_images_requested_rows [of E images d w]
  show ?thesis
    by (simp only: simp_thms)
qed

theorem existence_gate_idempotent_witness:
  "fs (snd (run_media_collection
        \<lparr>net = (\<lambda>u. if u = ''http://host/a.jpg''
                    then Inr \<lparr>status_code = 200, headers = [], pieces = [[1]], broken = None\<rparr>
                    else Inl Timeout),
         html_parser = (\<lambda>b. []), disk = (\<lambda>p. None)\<rparr>
        [\<lparr>image_url = Str ''http://host/a.jpg'', image_hash = Str ''aa''\<rparr>,
         \<lparr>image_url = Str ''http://host/b.jpg'', image_hash = Str ''bb''\<rparr>] []
        empty_world))
     = [''/Volumes/T7/ukgetweets2/collected/images/aa.jpg'' \<mapsto> [1]]
   \<and> requested (snd (run_media_collection
        \<lparr>net = (\<lambda>u. if u = ''http://host/a.jpg''
                    then Inr \<lparr>status_code = 200, headers = [], pieces = [[1]], broken = None\<rparr>
                    else Inl Timeout),
         html_parser = (\<lambda>b. []), disk = (\<lambda>p. None)\<rparr>
        [\<lparr>image_url = Str ''http://host/a.jpg'', image_hash = Str ''aa''\<rparr>,
         \<lparr>image_url = Str ''http://host/b.jpg'', image_hash = Str ''bb''\<rparr>] []
        empty_world))
     = [Str ''http://host/a.jpg'', Str ''http://host/b.jpg'']
   \<and> fs (snd (run_media_collection
        \<lparr>net = (\<lambda>u. if u = ''http://host/a.jpg''
                    then Inr \<lparr>status_code = 200, headers = [], pieces = [[1]], broken = None\<rparr>
                    else Inl Timeout),
         html_parser = (\<lambda>b. []), disk = (\<lambda>p. None)\<rparr>
        [\<lparr>image_url = Str ''http://host/a.jpg'', image_hash = Str ''aa''\<rparr>,
         \<lparr>image_url = Str ''http://host/b.jpg'', image_hash = Str ''bb''\<rparr>] []
        \<lparr>fs = [''/Volumes/T7/ukgetweets2/collected/images/aa.jpg'' \<mapsto> [1]],
         logged = [], tqdm = [],
         requested = [Str ''http://host/a.jpg'', Str ''http://host/b.jpg'']\<rparr>))
     = [''/Volumes/T7/ukgetweets2/collected/images/aa.jpg'' \<mapsto> [1]]
   \<and> requested (snd (run_media_collection
        \<lparr>net = (\<lambda>u. if u = ''http://host/a.jpg''
                    then Inr \<lparr>status_code = 200, headers = [], pieces = [[1]], broken = None\<rparr>
                    else Inl Timeout),
         html_parser = (\<lambda>b. []), disk = (\<lambda>p. None)\<rparr>
        [\<lparr>image_url = Str ''http://host/a.jpg'', image_hash = Str ''aa''\<rparr>,
         \<lparr>image_url = Str ''http://host/b.jpg'', image_hash = Str ''bb''\<rparr>] []
        \<lparr>fs = [''/Volumes/T7/ukgetweets2/collected/images/aa.jpg'' \<mapsto> [1]],
         logged = [], tqdm = [],
         requested = [Str ''http://host/a.jpg'', Str ''http://host/b.jpg'']\<rparr>))
     = [Str ''http://host/a.jpg'', Str ''http://host/b.jpg'', Str ''http://host/b.jpg'']"
  using existence_gate_idempotent [where w = empty_world
      and E = "\<lparr>net = (\<lambda>u. if u = ''http://host/a.jpg''
                    then Inr \<lparr>status_code = 200, headers = [], pieces = [[1]], broken = None\<rparr>
                    else Inl Timeout),
         html_parser = (\<lambda>b. []), disk = (\<lambda>p. None)\<rparr>"
      and images = "[\<lparr>image_url = Str ''http://host/a.jpg'', image_hash = Str ''aa''\<rparr>,
         \<lparr>image_url = Str ''http://host/b.jpg'', image_hash = Str ''bb''\<rparr>]"
      and videos = "[]"]
    existence_gate_idempotent [where
      w = "\<lparr>fs = [''/Volumes/T7/ukgetweets2/collected/images/aa.jpg'' \<mapsto> [1]],
         logged = [], tqdm = [],
         requested = [Str ''http://host/a.jpg'', Str ''http://host/b.jpg'']\<rparr>"
      and d = image_save_dir and h = "Str ''aa''" and url = "Str ''http://host/a.jpg''"
      and E = "\<lparr>net = (\<lambda>u. if u = ''http://host/a.jpg''
                    then Inr \<lparr>status_code = 200, headers = [], pieces = [[1]], broken = None\<rparr>
                    else Inl Timeout),
         html_parser = (\<lambda>b. []), disk = (\<lambda>p. None)\<rparr>"
      and images = "[\<lparr>image_url = Str ''http://host/a.jpg'', image_hash = Str ''aa''\<rparr>,
         \<lparr>image_url = Str ''http://host/b.jpg'', image_hash = Str ''bb''\<rparr>]"
      and videos = "[]"]
  by (simp add: run_media_collection_def download_images_def download_videos_def
        unique_rows_def dropna_def drop_duplicates_def download_image_def image_try_def payload_def
        requests_get_def raise_for_status_def open_wb_def file_write_def path_join_def
        path_exists_def image_save_dir_def video_save_dir_def empty_world_def Let_def
        logging_info_def logging_error_def)


section \<open>Failures stay with their row\<close>

lemma image_ok_try:
  "image_ok E d row \<Longrightarrow> fst (image_try E (image_url row) (image_path d row) w) = None"
  by (auto simp: image_ok_def image_try_def payload_def requests_get_def open_wb_def file_write_def
      split: pyval.splits sum.splits)

lemma image_ok_effect:
  "image_ok E d row \<Longrightarrow> \<exists>b. image_effect E (image_url row) (image_path d row) = Some b"
  by (auto simp: image_ok_def image_effect_def image_try_def payload_def requests_get_def open_wb_def
      file_write_def split: pyval.splits sum.splits)

lemma video_ok_try:
  assumes "video_ok E d row"
  shows "\<exists>u. fst (extract_highest_quality_video_url E (landing_url row) empty_world) = Inr (Str u)
           \<and> fst (video_try E (Str u) (video_path d row) w) = None
           \<and> (\<exists>b. video_effect E (Str u) (video_path d row) = Some b)"
proof -
  from assms have k: "disk E (video_path d row) = None"
    and c: "case fst (extract_highest_quality_video_url E (landing_url row) empty_world) of
         Inr (Str u) \<Rightarrow>
           (case net E u of
              Inr r \<Rightarrow>
                broken r = None \<and> raise_for_status r = None \<and>
                (case total_size r of Inr n \<Rightarrow> True | Inl e \<Rightarrow> False)
            | Inl e \<Rightarrow> False)
       | _ \<Rightarrow> False"
    by (simp_all add: video_ok_def)
  from c obtain u where
    u: "fst (extract_highest_quality_video_url E (landing_url row) empty_world) = Inr (Str u)"
    by (auto split: sum.splits pyval.splits)
  with c have c2: "case net E u of
              Inr r \<Rightarrow>
                broken r = None \<and> raise_for_status r = None \<and>
                (case total_size r of Inr n \<Rightarrow> True | Inl e \<Rightarrow> False)
            | Inl e \<Rightarrow> False"
    by simp
  then obtain r where r0: "net E u = Inr r" "broken r = None" "raise_for_status r = None"
    and c3: "case total_size r of Inr n \<Rightarrow> True | Inl e \<Rightarrow> False"
    by (cases "net E u") auto
  from c3 obtain n where "total_size r = Inr n"
    by (cases "total_size r") auto
  with r0 have r: "net E u = Inr r" "broken r = None" "raise_for_status r = None"
      "total_size r = Inr n"
    by simp_all
  from video_try_complete [OF r k]
  have "fst (video_try E (Str u) (video_path d row) w) = None"
    and "video_effect E (Str u) (video_path d row) = Some (payload r)"
    by (simp_all add: video_effect_def)
  with u show ?thesis by blast
qed

lemma download_image_entry:
  "\<exists>e. logged (snd (download_image E (image_url row) (image_hash row) d w)) = logged w @ [e]
      \<and> (image_ok E d row \<longrightarrow> (\<exists>m. e = INFO m))"
  using image_ok_try [of E d row empty_world]
  by (auto simp: download_image_logged image_path_def)

lemma videos_row_entry:
  "\<exists>e. logged (snd (videos_row E d row w)) = logged w @ [e]
      \<and> (video_ok E d row \<longrightarrow> (\<exists>m. e = INFO m))"
  using video_ok_try [of E d row empty_world]
  by (auto simp: videos_row_logged)

lemma download_images_entries:
  "\<exists>es. logged (snd (download_images E images d w)) = logged w @ es
      \<and> length es = length (unique_rows image_url images)
      \<and> (\<forall>i < length es. image_ok E d (unique_rows image_url images ! i) \<longrightarrow> (\<exists>m. es ! i = INFO m))"
proof -
  from run_tasks_logged [of "\<lambda>row. download_image E (image_url row) (image_hash row) d"
      "\<lambda>row e. image_ok E d row \<longrightarrow> (\<exists>m. e = INFO m)" "unique_rows image_url images" w,
      OF download_image_entry]
  obtain es where "logged (snd (download_images E images d w)) = logged w @ es"
    and "list_all2 (\<lambda>row e. image_ok E d row \<longrightarrow> (\<exists>m. e = INFO m)) (unique_rows image_url images) es"
    by (auto simp: download_images_def)
  then show ?thesis
    by (auto simp: list_all2_conv_all_nth)
qed

lemma download_videos_entries:
  "\<exists>es. logged (snd (download_videos E videos d w)) = logged w @ es
      \<and> length es = length (unique_rows video_url videos)
      \<and> (\<forall>i < length es. video_ok E d (unique_rows video_url videos ! i) \<longrightarrow> (\<exists>m. es ! i = INFO m))"
proof -
  from run_tasks_logged [of "videos_row E d"
      "\<lambda>row e. video_ok E d row \<longrightarrow> (\<exists>m. e = INFO m)" "unique_rows video_url videos" w,
      OF videos_row_entry]
  obtain es where "logged (snd (download_videos E videos d w)) = logged w @ es"
    and "list_all2 (\<lambda>row e. video_ok E d row \<longrightarrow> (\<exists>m. e = INFO m)) (unique_rows video_url videos) es"
    by (auto simp: download_videos_def)
  then show ?thesis
    by (auto simp: list_all2_conv_all_nth)
qed

lemma download_images_ok_exists:
  assumes "row \<in> set (unique_rows image_url images)" and "image_ok E d row"
  shows "path_exists (snd (download_images E images d w)) (image_path d row)"
proof -
  from assms(1) have "image_step E d row \<in> set (map (image_step E d) (unique_rows image_url images))"
    by simp
  then have "(image_path d row, image_effect E (image_url row) (image_path d row))
      \<in> set (map (image_step E d) (unique_rows image_url images))"
    by (simp add: image_step_def)
  from gated_fold_done [OF this, of "fs w"] image_ok_effect [OF assms(2)] show ?thesis
    by (auto simp: path_exists_def download_images_fs)
qed

lemma download_videos_ok_exists:
  assumes "row \<in> set (unique_rows video_url videos)" and "video_ok E d row"
  shows "path_exists (snd (download_videos E videos d w)) (video_path d row)"
proof -
  from video_ok_try [OF assms(2), of empty_world] obtain u b where
    "fst (extract_highest_quality_video_url E (landing_url row) empty_world) = Inr (Str u)"
    "video_effect E (Str u) (video_path d row) = Some b"
    by blast
  then have s: "video_step E d row = (video_path d row, Some b)"
    by (simp add: video_step_def)
  from assms(1) have "video_step E d row \<in> set (map (video_step E d) (unique_rows video_url videos))"
    by simp
  with s have "(video_path d row, Some b) \<in> set (map (video_step E d) (unique_rows video_url videos))"
    by simp
  from gated_fold_done [OF this, of "fs w"] show ?thesis
    by (auto simp: path_exists_def download_videos_fs)
qed

text \<open>
  C8. No exception leaves \<^verbatim>\<open>download_image\<close>, \<^verbatim>\<open>download_video\<close>, the loop of
  \<^verbatim>\<open>download_videos\<close>, the two downloads or \<^verbatim>\<open>run_media_collection\<close>. What is raised while an
  image or a video is fetched or written (by \<^verbatim>\<open>requests\<close>, \<^verbatim>\<open>raise_for_status\<close>, \<^verbatim>\<open>int\<close>, \<^verbatim>\<open>open\<close>
  or \<^verbatim>\<open>write\<close>) is logged as an error by the handlers of that call, and what is raised while
  the video URL is extracted is logged as an error by the loop. A run logs one record for
  each row, in the order of the rows, and the record of a row whose download cannot fail
  is an info record, that of a skipped or of a finished download, whatever happens to the
  other rows; the file of such a row exists after the run.
\<close>

theorem failures_stay_with_their_row:
  "fst (download_image E url h d w) = None
   \<and> fst (download_video E url h d w) = None
   \<and> fst (videos_row E d vrow w) = None
   \<and> fst (download_images E images d w) = None
   \<and> fst (download_videos E videos d w) = None
   \<and> fst (run_media_collection E images videos w) = None
   \<and> (\<forall>err w1. \<not> path_exists w (path_join d (py_str h @ ''.jpg''))
          \<and> image_try E url (path_join d (py_str h @ ''.jpg'')) w = (Some err, w1) \<longrightarrow>
        (\<exists>msg. snd (download_image E url h d w) = logging_error msg err w1))
   \<and> (\<forall>err w1. \<not> path_exists w (path_join d (py_str h @ ''.mp4''))
          \<and> video_try E url (path_join d (py_str h @ ''.mp4'')) w = (Some err, w1) \<longrightarrow>
        (\<exists>msg. snd (download_video E url h d w) = logging_error msg err w1))
   \<and> (\<forall>err w1. \<not> path_exists w (video_path d vrow)
          \<and> extract_highest_quality_video_url E (landing_url vrow) w = (Inl err, w1) \<longrightarrow>
        snd (videos_row E d vrow w)
          = logging_error ''An error occurred while extracting video URL: '' err w1)
   \<and> (\<exists>es. logged (snd (download_images E images d w)) = logged w @ es
        \<and> length es = length (unique_rows image_url images)
        \<and> (\<forall>i < length es. image_ok E d (unique_rows image_url images ! i) \<longrightarrow>
              (\<exists>m. es ! i = INFO m)))
   \<and> (\<exists>es. logged (snd (download_videos E videos d w)) = logged w @ es
        \<and> length es = length (unique_rows video_url videos)
        \<and> (\<forall>i < length es. video_ok E d (unique_rows video_url videos ! i) \<longrightarrow>
              (\<exists>m. es ! i = INFO m)))
   \<and> (\<forall>row \<in> set (unique_rows image_url images). image_ok E d row \<longrightarrow>
        path_exists (snd (download_images E images d w)) (image_path d row))
   \<and> (\<forall>row \<in> set (unique_rows video_url videos). video_ok E d row \<longrightarrow>
        path_exists (snd (download_videos E videos d w)) (video_path d row))"
proof -
  have a: "\<forall>err w1. \<not> path_exists w (path_join d (py_str h @ ''.jpg''))
          \<and> image_try E url (path_join d (py_str h @ ''.jpg'')) w = (Some err, w1) \<longrightarrow>
        (\<exists>msg. snd (download_image E url h d w) = logging_error msg err w1)"
  proof (intro allI impI)
    fix err w1
    assume "\<not> path_exists w (path_join d (py_str h @ ''.jpg''))
          \<and> image_try E url (path_join d (py_str h @ ''.jpg'')) w = (Some err, w1)"
    then have "snd (download_image E url h d w) = except_clauses err w1"
      by (simp add: download_image_def Let_def)
    then show "\<exists>msg. snd (download_image E url h d w) = logging_error msg err w1"
      by (cases err) auto
  qed
  have b: "\<forall>err w1. \<not> path_exists w (path_join d (py_str h @ ''.mp4''))
          \<and> video_try E url (path_join d (py_str h @ ''.mp4'')) w = (Some err, w1) \<longrightarrow>
        (\<exists>msg. snd (download_video E url h d w) = logging_error msg err w1)"
  proof (intro allI impI)
    fix err w1
    assume "\<not> path_exists w (path_join d (py_str h @ ''.mp4''))
          \<and> video_try E url (path_join d (py_str h @ ''.mp4'')) w = (Some err, w1)"
    then have "snd (download_video E url h d w) = except_clauses err w1"
      by (simp add: download_video_def Let_def)
    then show "\<exists>msg. snd (download_video E url h d w) = logging_error msg err w1"
      by (cases err) auto
  qed
  have c: "\<forall>err w1. \<not> path_exists w (video_path d vrow)
          \<and> extract_highest_quality_video_url E (landing_url vrow) w = (Inl err, w1) \<longrightarrow>
        snd (videos_row E d vrow w)
          = logging_error ''An error occurred while extracting video URL: '' err w1"
    by (simp add: videos_row_def Let_def video_path_def landing_url_def)
  have i: "\<forall>row \<in> set (unique_rows image_url images). image_ok E d row \<longrightarrow>
        path_exists (snd (download_images E images d w)) (image_path d row)"
    using download_images_ok_exists by blast
  have v: "\<forall>row \<in> set (unique_rows video_url videos). video_ok E d row \<longrightarrow>
        path_exists (snd (download_videos E videos d w)) (video_path d row)"
    using download_videos_ok_exists by blast
  from a b c i v download_images_entries [of E images d w]
    download_videos_entries [of E videos d w]
  show ?thesis
    by (simp only: download_image_fst download_video_fst videos_row_fst download_images_fst
          download_videos_fst run_media_collection_fst simp_thms)
qed

theorem failures_stay_with_their_row_witness:
  "fst (download_images
      \<lparr>net = (\<lambda>u. if u = ''http://h/5''
                  then Inr \<lparr>status_code = 500, headers = [], pieces = [], broken = None\<rparr>
                  else Inr \<lparr>status_code = 200, headers = [], pieces = [[1]], broken = None\<rparr>),
       html_parser = (\<lambda>b. []), disk = (\<lambda>p. None)\<rparr>
      [\<lparr>image_url = Str ''http://h/1'', image_hash = Str ''h1''\<rparr>,
        \<lparr>image_url = Str ''http://h/2'', image_hash = Str ''h2''\<rparr>,
        \<lparr>image_url = Str ''http://h/3'', image_hash = Str ''h3''\<rparr>,
        \<lparr>image_url = Str ''http://h/4'', image_hash = Str ''h4''\<rparr>,
        \<lparr>image_url = Str ''http://h/5'', image_hash = Str ''h5''\<rparr>,
        \<lparr>image_url = Str ''http://h/6'', image_hash = Str ''h6''\<rparr>,
        \<lparr>image_url = Str ''http://h/7'', image_hash = Str ''h7''\<rparr>,
        \<lparr>image_url = Str ''http://h/8'', image_hash = Str ''h8''\<rparr>,
        \<lparr>image_url = Str ''http://h/9'', image_hash = Str ''h9''\<rparr>,
        \<lparr>image_url = Str ''http://h/10'', image_hash = Str ''h10''\<rparr>]
      ''images'' empty_world) = None
   \<and> map (\<lambda>e. case e of INFO m \<Rightarrow> None | ERROR m err \<Rightarrow> Some err)
       (logged (snd (download_images
      \<lparr>net = (\<lambda>u. if u = ''http://h/5''
                  then Inr \<lparr>status_code = 500, headers = [], pieces = [], broken = None\<rparr>
                  else Inr \<lparr>status_code = 200, headers = [], pieces = [[1]], broken = None\<rparr>),
       html_parser = (\<lambda>b. []), disk = (\<lambda>p. None)\<rparr>
      [\<lparr>image_url = Str ''http://h/1'', image_hash = Str ''h1''\<rparr>,
        \<lparr>image_url = Str ''http://h/2'', image_hash = Str ''h2''\<rparr>,
        \<lparr>image_url = Str ''http://h/3'', image_hash = Str ''h3''\<rparr>,
        \<lparr>image_url = Str ''http://h/4'', image_hash = Str ''h4''\<rparr>,
        \<lparr>image_url = Str ''http://h/5'', image_hash = Str ''h5''\<rparr>,
        \<lparr>image_url = Str ''http://h/6'', image_hash = Str ''h6''\<rparr>,
        \<lparr>image_url = Str ''http://h/7'', image_hash = Str ''h7''\<rparr>,
        \<lparr>image_url = Str ''http://h/8'', image_hash = Str ''h8''\<rparr>,
        \<lparr>image_url = Str ''http://h/9'', image_hash = Str ''h9''\<rparr>,
        \<lparr>image_url = Str ''http://h/10'', image_hash = Str ''h10''\<rparr>]
      ''images'' empty_world)))
     = [None, None, None, None, Some (HTTPError 500), None, None, None, None, None]
   \<and> fs (snd (download_images
      \<lparr>net = (\<lambda>u. if u = ''http://h/5''
                  then Inr \<lparr>status_code = 500, headers = [], pieces = [], broken = None\<rparr>
                  else Inr \<lparr>status_code = 200, headers = [], pieces = [[1]], broken = None\<rparr>),
       html_parser = (\<lambda>b. []), disk = (\<lambda>p. None)\<rparr>
      [\<lparr>image_url = Str ''http://h/1'', image_hash = Str ''h1''\<rparr>,
        \<lparr>image_url = Str ''http://h/2'', image_hash = Str ''h2''\<rparr>,
        \<lparr>image_url = Str ''http://h/3'', image_hash = Str ''h3''\<rparr>,
        \<lparr>image_url = Str ''http://h/4'', image_hash = Str ''h4''\<rparr>,
        \<lparr>image_url = Str ''http://h/5'', image_hash = Str ''h5''\<rparr>,
        \<lparr>image_url = Str ''http://h/6'', image_hash = Str ''h6''\<rparr>,
        \<lparr>image_url = Str ''http://h/7'', image_hash = Str ''h7''\<rparr>,
        \<lparr>image_url = Str ''http://h/8'', image_hash = Str ''h8''\<rparr>,
        \<lparr>image_url = Str ''http://h/9'', image_hash = Str ''h9''\<rparr>,
        \<lparr>image_url = Str ''http://h/10'', image_hash = Str ''h10''\<rparr>]
      ''images'' empty_world)) ''images/h5.jpg'' = None
   \<and> fs (snd (download_images
      \<lparr>net = (\<lambda>u. if u = ''http://h/5''
                  then Inr \<lparr>status_code = 500, headers = [], pieces = [], broken = None\<rparr>
                  else Inr \<lparr>status_code = 200, headers = [], pieces = [[1]], broken = None\<rparr>),
       html_parser = (\<lambda>b. []), disk = (\<lambda>p. None)\<rparr>
      [\<lparr>image_url = Str ''http://h/1'', image_hash = Str ''h1''\<rparr>,
        \<lparr>image_url = Str ''http://h/2'', image_hash = Str ''h2''\<rparr>,
        \<lparr>image_url = Str ''http://h/3'', image_hash = Str ''h3''\<rparr>,
        \<lparr>image_url = Str ''http://h/4'', image_hash = Str ''h4''\<rparr>,
        \<lparr>image_url = Str ''http://h/5'', image_hash = Str ''h5''\<rparr>,
        \<lparr>image_url = Str ''http://h/6'', image_hash = Str ''h6''\<rparr>,
        \<lparr>image_url = Str ''http://h/7'', image_hash = Str ''h7''\<rparr>,
        \<lparr>image_url = Str ''http://h/8'', image_hash = Str ''h8''\<rparr>,
        \<lparr>image_url = Str ''http://h/9'', image_hash = Str ''h9''\<rparr>,
        \<lparr>image_url = Str ''http://h/10'', image_hash = Str ''h10''\<rparr>]
      ''images'' empty_world)) ''images/h6.jpg'' = Some [1]"
  using failures_stay_with_their_row [where w = empty_world and d = "''images''"
      and E = "\<lparr>net = (\<lambda>u. if u = ''http://h/5''
                  then Inr \<lparr>status_code = 500, headers = [], pieces = [], broken = None\<rparr>
                  else Inr \<lparr>status_code = 200, headers = [], pieces = [[1]], broken = None\<rparr>),
       html_parser = (\<lambda>b. []), disk = (\<lambda>p. None)\<rparr>"
      and images = "[\<lparr>image_url = Str ''http://h/1'', image_hash = Str ''h1''\<rparr>,
        \<lparr>image_url = Str ''http://h/2'', image_hash = Str ''h2''\<rparr>,
        \<lparr>image_url = Str ''http://h/3'', image_hash = Str ''h3''\<rparr>,
        \<lparr>image_url = Str ''http://h/4'', image_hash = Str ''h4''\<rparr>,
        \<lparr>image_url = Str ''http://h/5'', image_hash = Str ''h5''\<rparr>,
        \<lparr>image_url = Str ''http://h/6'', image_hash = Str ''h6''\<rparr>,
        \<lparr>image_url = Str ''http://h/7'', image_hash = Str ''h7''\<rparr>,
        \<lparr>image_url = Str ''http://h/8'', image_hash = Str ''h8''\<rparr>,
        \<lparr>image_url = Str ''http://h/9'', image_hash = Str ''h9''\<rparr>,
        \<lparr>image_url = Str ''http://h/10'', image_hash = Str ''h10''\<rparr>]"]
  by (simp add: download_images_def unique_rows_def dropna_def drop_duplicates_def
        download_image_def image_try_def payload_def requests_get_def raise_for_status_def open_wb_def
        file_write_def path_join_def path_exists_def empty_world_def Let_def logging_info_def
        logging_error_def)


section \<open>The names of the files\<close>

lemma length_md5_digest: "length (md5_digest m) = 16"
proof -
  obtain a b c d where
    "foldl md5_block (0x67452301, 0xefcdab89, 0x98badcfe, 0x10325476) (chunks 64 (md5_pad m))
       = (a, b, c, d)"
    using prod_cases4 by blast
  then show ?thesis
    by (simp add: md5_digest_def le_bytes_def)
qed

lemma length_hexdigest: "length (hexdigest bs) = 2 * length bs"
  by (induction bs) (simp_all add: hexdigest_def)

lemma length_hash_url: "length (hash_url u) = 32"
  by (simp add: hash_url_def length_hexdigest length_md5_digest)

lemma hex_digit_in: "n < 16 \<Longrightarrow> hex_digit n \<in> set ''0123456789abcdef''"
  unfolding hex_digit_def by (rule nth_mem) simp

lemma hexdigest_chars: "set (hexdigest bs) \<subseteq> set ''0123456789abcdef''"
proof -
  have "hex_digit (unat b div 16) \<in> set ''0123456789abcdef''
      \<and> hex_digit (unat b mod 16) \<in> set ''0123456789abcdef''" for b :: byte
  proof -
    have "unat b < 256" using unsigned_less [of b] by simp
    then have "unat b div 16 < 16" and "unat b mod 16 < 16" by simp_all
    then show ?thesis by (simp only: hex_digit_in)
  qed
  then show ?thesis
    unfolding hexdigest_def by (induction bs) auto
qed

lemma hash_url_chars: "set (hash_url u) \<subseteq> set ''0123456789abcdef''"
  by (simp only: hash_url_def hexdigest_chars)

lemma video_path_hash:
  "video_url row = Str u \<Longrightarrow> video_path d row = path_join d (hash_url u @ ''.mp4'')"
  by (simp add: video_path_def video_hash_def)

lemma download_videos_new_files:
  assumes "p \<in> dom (fs (snd (download_videos E videos d w)))"
  shows "p \<in> dom (fs w)
       \<or> (\<exists>row \<in> set videos. \<exists>u. video_url row = Str u \<and> p = path_join d (hash_url u @ ''.mp4''))"
proof -
  from assms gated_fold_new [of p "fs w" "map (video_step E d) (unique_rows video_url videos)"]
  consider "p \<in> dom (fs w)" | "p \<in> video_path d ` set (unique_rows video_url videos)"
    by (auto simp: download_videos_fs video_step_def image_iff)
  then show ?thesis
  proof cases
    case 1
    then show ?thesis by simp
  next
    case 2
    then obtain row where row: "row \<in> set (unique_rows video_url videos)" "p = video_path d row"
      by auto
    from unique_rows_Str [OF row(1)] obtain u where "video_url row = Str u" by blast
    with row unique_rows_subset [of video_url videos] video_path_hash [of row u d]
    show ?thesis by auto
  qed
qed

lemma download_images_new_files:
  assumes "p \<in> dom (fs (snd (download_images E images d w)))"
  shows "p \<in> dom (fs w)
       \<or> (\<exists>row \<in> set images. p = path_join d (py_str (image_hash row) @ ''.jpg''))"
proof -
  from assms gated_fold_new [of p "fs w" "map (image_step E d) (unique_rows image_url images)"]
  consider "p \<in> dom (fs w)" | "p \<in> image_path d ` set (unique_rows image_url images)"
    by (auto simp: download_images_fs image_step_def image_iff)
  then show ?thesis
  proof cases
    case 1
    then show ?thesis by simp
  next
    case 2
    then obtain row where "row \<in> set (unique_rows image_url images)" "p = image_path d row"
      by auto
    with unique_rows_subset [of image_url images] show ?thesis
      by (auto simp: image_path_def)
  qed
qed

text \<open>
  One image URL, two values of \<^verbatim>\<open>image_hash\<close> in the input: the file is named by the field
  each time, and a field need not be the MD5 digest of the URL.
\<close>

theorem image_identity_counterexample:
  "dom (fs (snd (download_images
     \<lparr>net = (\<lambda>u. Inr \<lparr>status_code = 200, headers = [], pieces = [[1]], broken = None\<rparr>),
      html_parser = (\<lambda>b. []), disk = (\<lambda>p. None)\<rparr>
     [\<lparr>image_url = Str ''http://host/a.jpg'', image_hash = Str ''first''\<rparr>]
     ''images'' empty_world))) = {''images/first.jpg''}
   \<and> dom (fs (snd (download_images
     \<lparr>net = (\<lambda>u. Inr \<lparr>status_code = 200, headers = [], pieces = [[1]], broken = None\<rparr>),
      html_parser = (\<lambda>b. []), disk = (\<lambda>p. None)\<rparr>
     [\<lparr>image_url = Str ''http://host/a.jpg'', image_hash = Str ''second''\<rparr>]
     ''images'' empty_world))) = {''images/second.jpg''}
   \<and> hash_url ''http://host/a.jpg'' \<noteq> ''first''"
proof -
  have "hash_url ''http://host/a.jpg'' \<noteq> ''first''"
    using length_hash_url [of "''http://host/a.jpg''"] by auto
  then show ?thesis
    by (simp add: download_images_def unique_rows_def dropna_def drop_duplicates_def
        download_image_def image_try_def payload_def requests_get_def raise_for_status_def open_wb_def
        file_write_def path_join_def path_exists_def empty_world_def Let_def logging_info_def)
qed

text \<open>
  C1, as the code has it. The file of a video is named by \<^verbatim>\<open>hash_url\<close> of its URL, the MD5
  digest in 32 hexadecimal digits: \<^verbatim>\<open>download_videos\<close> checks and writes the path
  \<^verbatim>\<open>download_dir/hash_url(url).mp4\<close>, and every file it creates is such a path for a URL of its
  input. The file of an image is named by the field \<^verbatim>\<open>image_hash\<close> of its row, which the
  program reads and does not compute: every file that \<^verbatim>\<open>download_images\<close> creates is
  \<^verbatim>\<open>download_dir/image_hash.jpg\<close> for a row of its input.
\<close>

theorem identity_of_targets:
  "(\<forall>u. video_url vrow = Str u \<longrightarrow> video_path d vrow = path_join d (hash_url u @ ''.mp4''))
   \<and> length (hash_url u) = 32
   \<and> set (hash_url u) \<subseteq> set ''0123456789abcdef''
   \<and> (\<forall>p. p \<in> dom (fs (snd (download_videos E videos d w))) \<longrightarrow>
          p \<in> dom (fs w)
          \<or> (\<exists>row \<in> set videos. \<exists>u. video_url row = Str u
                \<and> p = path_join d (hash_url u @ ''.mp4'')))
   \<and> image_path d irow = path_join d (py_str (image_hash irow) @ ''.jpg'')
   \<and> (\<forall>p. p \<in> dom (fs (snd (download_images E images d w))) \<longrightarrow>
          p \<in> dom (fs w)
          \<or> (\<exists>row \<in> set images. p = path_join d (py_str (image_hash row) @ ''.jpg'')))"
  using video_path_hash [of vrow _ d] download_videos_new_files [of _ E videos d w]
    download_images_new_files [of _ E images d w]
  by (simp only: length_hash_url hash_url_chars image_path_def simp_thms) blast


theorem identity_of_targets_witness:
  "hash_url ''https://x.com/i/status/1'' = ''6d8d8e9546ef1c92cd8d3b5e70ccf674''
   \<and> video_path ''videos'' \<lparr>video_url = Str ''https://x.com/i/status/1''\<rparr>
       = ''videos/6d8d8e9546ef1c92cd8d3b5e70ccf674.mp4''
   \<and> fs (snd (download_videos
       \<lparr>net = (\<lambda>u. Inr \<lparr>status_code = 200, headers = [], pieces = [[1]], broken = None\<rparr>),
        html_parser = (\<lambda>b. [Tag ''div'' [(''class'', ''origin-top-right'')]
                                 [Tag ''a'' [(''href'', ''https://cdn.host/v.mp4'')] []]]),
        disk = (\<lambda>p. None)\<rparr>
       [\<lparr>video_url = Str ''https://x.com/i/status/1''\<rparr>] ''videos'' empty_world))
       = [''videos/6d8d8e9546ef1c92cd8d3b5e70ccf674.mp4'' \<mapsto> [1]]
   \<and> image_path ''images'' \<lparr>image_url = Str ''http://host/a.jpg'', image_hash = Str ''0a1b''\<rparr>
       = ''images/0a1b.jpg''"
proof -
  have h: "hash_url ''https://x.com/i/status/1'' = ''6d8d8e9546ef1c92cd8d3b5e70ccf674''"
    by code_simp
  show ?thesis
    using identity_of_targets [where vrow = "\<lparr>video_url = Str ''https://x.com/i/status/1''\<rparr>"
        and d = "''videos''" and u = "''https://x.com/i/status/1''"]
      identity_of_targets [where d = "''images''"
        and irow = "\<lparr>image_url = Str ''http://host/a.jpg'', image_hash = Str ''0a1b''\<rparr>"]
    by (simp add: h path_join_def download_videos_def unique_rows_def dropna_def
          drop_duplicates_def videos_row_def video_hash_def
          extract_highest_quality_video_url_def find_all_def descendants_def is_space_def
          download_video_def video_try_def requests_get_def raise_for_status_def total_size_def
          headers_get_def open_wb_def file_write_def iter_content_def block_size_def
          payload_def progress_bar_open_def progress_bar_update_def progress_bar_close_def
          path_exists_def empty_world_def Let_def logging_info_def)
qed


end
